theory Spec2Isabelle
  imports Complex_Main "HOL-Library.Word" "HOL-Library.AList" "HOL-Library.Sublist"
begin

section \<open>Strings, paths and library functions\<close>

text \<open>
  Python strings and byte strings are modelled as \<^typ>\<open>string\<close>. The characters that
  cannot be written inside an Isabelle string literal are named here.
\<close>

definition dq :: char where "dq = CHR 0x22"   \<comment> \<open>the double quote\<close>
definition sq :: char where "sq = CHR 0x27"   \<comment> \<open>the single quote\<close>
definition bs :: char where "bs = CHR 0x5C"   \<comment> \<open>the backslash\<close>
definition nl :: char where "nl = CHR 0x0A"   \<comment> \<open>the newline\<close>

text \<open>\<^verbatim>\<open>str.lower()\<close>, on ASCII letters.\<close>

definition lower_char :: "char \<Rightarrow> char" where
  "lower_char c =
     (let n = (of_char c :: nat) in if 65 \<le> n \<and> n \<le> 90 then char_of (n + 32) else c)"

definition lower :: "string \<Rightarrow> string" where
  "lower s = map lower_char s"

text \<open>\<^verbatim>\<open>str(n)\<close> for a non-negative integer.\<close>

fun string_of_nat :: "nat \<Rightarrow> string" where
  "string_of_nat n =
     (if n < 10 then [''0123456789'' ! n]
      else string_of_nat (n div 10) @ [''0123456789'' ! (n mod 10)])"

text \<open>
  \<^verbatim>\<open>s.split(d)\<close> for a one-character separator is \<open>split_on d [] s\<close>.

  \<^verbatim>\<open>pathlib\<close>, for POSIX paths. \<^verbatim>\<open>Path(p).parts\<close> without the root: the components between
  slashes, empty components and \<^verbatim>\<open>.\<close> dropped. \<^verbatim>\<open>Path(p).name\<close> is the last component (empty
  when there is none) and \<^verbatim>\<open>Path(p).suffix\<close> is \<^verbatim>\<open>name[i:]\<close> for \<^verbatim>\<open>i = name.rfind('.')\<close> when
  \<^verbatim>\<open>0 < i < len(name) - 1\<close>, and empty otherwise.
\<close>

fun split_on :: "char \<Rightarrow> string \<Rightarrow> string \<Rightarrow> string list" where
  "split_on d acc [] = [rev acc]"
| "split_on d acc (c # cs) =
     (if c = d then rev acc # split_on d [] cs else split_on d (c # acc) cs)"

definition path_parts :: "string \<Rightarrow> string list" where
  "path_parts p = filter (\<lambda>c. c \<noteq> [] \<and> c \<noteq> ''.'') (split_on CHR ''/'' [] p)"

definition path_name :: "string \<Rightarrow> string" where
  "path_name p = (case rev (path_parts p) of [] \<Rightarrow> [] | n # _ \<Rightarrow> n)"

text \<open>\<^verbatim>\<open>s.rfind('.')\<close>: the index of the last dot, None for Python's -1.\<close>

fun rfind_dot :: "string \<Rightarrow> nat option" where
  "rfind_dot [] = None"
| "rfind_dot (c # cs) =
     (case rfind_dot cs of
        Some i \<Rightarrow> Some (Suc i)
      | None \<Rightarrow> if c = CHR ''.'' then Some 0 else None)"

definition suffix_of_name :: "string \<Rightarrow> string" where
  "suffix_of_name n =
     (case rfind_dot n of
        None \<Rightarrow> []
      | Some i \<Rightarrow> if 0 < i \<and> Suc i < length n then drop i n else [])"

definition path_suffix :: "string \<Rightarrow> string" where
  "path_suffix p = suffix_of_name (path_name p)"

text \<open>
  \<^verbatim>\<open>str(Path(a) / b)\<close>. The root of a POSIX path is \<^verbatim>\<open>//\<close> when the path starts with exactly
  two slashes, \<^verbatim>\<open>/\<close> when it starts with one or with three or more, and empty otherwise. An
  absolute \<^verbatim>\<open>b\<close> replaces \<^verbatim>\<open>a\<close>. The result is the root followed by the components, joined by
  single slashes, and \<^verbatim>\<open>.\<close> when there is neither a root nor a component.
\<close>

fun join_slash :: "string list \<Rightarrow> string" where
  "join_slash [] = []"
| "join_slash [c] = c"
| "join_slash (c # cs) = c @ ''/'' @ join_slash cs"

definition path_root :: "string \<Rightarrow> string" where
  "path_root p =
     (let n = length (takeWhile (\<lambda>c. c = CHR ''/'') p)
      in if n = 0 then [] else if n = 2 then ''//'' else ''/'')"

definition path_str :: "string \<Rightarrow> string list \<Rightarrow> string" where
  "path_str rt parts =
     (if rt = [] \<and> parts = [] then ''.'' else rt @ join_slash parts)"

definition path_join :: "string \<Rightarrow> string \<Rightarrow> string" where
  "path_join a b =
     (if path_root b \<noteq> [] then path_str (path_root b) (path_parts b)
      else path_str (path_root a) (path_parts a @ path_parts b))"

text \<open>
  The functions of the Python standard library that the engine calls and that are not
  code of the repository are parameters of the model:
  \<^item> \<open>re_findall pat content\<close> is \<^verbatim>\<open>re.compile(pat, re.IGNORECASE | re.MULTILINE).findall(content)\<close>;
  \<^item> \<open>md5 b\<close> is \<^verbatim>\<open>int(hashlib.md5(b).hexdigest(), 16)\<close>, the 128-bit digest read as the
    big-endian number its hexadecimal rendering denotes;
  \<^item> \<open>sha256_hex b\<close> is \<^verbatim>\<open>hashlib.sha256(b).hexdigest()\<close>;
  \<^item> \<open>gzip_compress b\<close> is \<^verbatim>\<open>gzip.compress(b, compresslevel=6)\<close> and \<open>gzip_decompress b\<close> is
    \<^verbatim>\<open>gzip.decompress(b)\<close>, None when it raises;
  \<^item> \<open>decode_utf8 b\<close> is \<^verbatim>\<open>b.decode('utf-8', errors='ignore')\<close>;
  \<^item> \<open>guess_type p\<close> is \<^verbatim>\<open>mimetypes.guess_type(p)[0]\<close>.
\<close>

record pylib =
  re_findall :: "string \<Rightarrow> string \<Rightarrow> string list"
  md5 :: "string \<Rightarrow> 128 word"
  sha256_hex :: "string \<Rightarrow> string"
  gzip_compress :: "string \<Rightarrow> string"
  gzip_decompress :: "string \<Rightarrow> string option"
  decode_utf8 :: "string \<Rightarrow> string"
  guess_type :: "string \<Rightarrow> string option"

section \<open>The pattern engine (SecurityAnalyzer)\<close>

record SecurityPattern =
  pattern :: string
  severity :: string
  description :: string
  file_types :: "string list"

definition mk_pattern :: "string \<Rightarrow> string \<Rightarrow> string \<Rightarrow> string list \<Rightarrow> SecurityPattern" where
  "mk_pattern p s d ts = \<lparr>pattern = p, severity = s, description = d, file_types = ts\<rparr>"

text \<open>The regular expression of each rule, as the source writes it.\<close>

definition re_password :: string where
  "re_password = ''(?:password|passwd|pwd)'' @ [bs] @ ''s*='' @ [bs] @ ''s*['' @ [dq, bs, sq]
     @ '']([^'' @ [dq, bs, sq] @ '']+)['' @ [dq, bs, sq] @ '']''"

definition re_api_key :: string where
  "re_api_key = ''(?:api[_-]?key|apikey)'' @ [bs] @ ''s*='' @ [bs] @ ''s*['' @ [dq, bs, sq]
     @ '']([^'' @ [dq, bs, sq] @ '']+)['' @ [dq, bs, sq] @ '']''"

definition re_secret :: string where
  "re_secret = ''(?:secret|token)'' @ [bs] @ ''s*='' @ [bs] @ ''s*['' @ [dq, bs, sq]
     @ '']([^'' @ [dq, bs, sq] @ '']+)['' @ [dq, bs, sq] @ '']''"

definition re_sql_percent :: string where
  "re_sql_percent = ''(?:execute|query)'' @ [bs] @ ''s*'' @ [bs] @ ''('' @ [bs] @ ''s*['' @ [dq, bs, sq]
     @ ''].*?'' @ [bs] @ ''%s.*?['' @ [dq, bs, sq] @ ''].*?'' @ [bs] @ ''%.*?'' @ [bs] @ '')''"

definition re_sql_fstring :: string where
  "re_sql_fstring = ''(?:execute|query)'' @ [bs] @ ''s*'' @ [bs] @ ''('' @ [bs] @ ''s*f['' @ [dq, bs, sq]
     @ ''].*?'' @ [bs] @ ''{.*?'' @ [bs] @ ''}.*?['' @ [dq, bs, sq] @ '']''"

definition re_os_system :: string where
  "re_os_system = ''os'' @ [bs] @ ''.system'' @ [bs] @ ''s*'' @ [bs] @ ''([^)]*'' @ [bs] @ ''+[^)]*''
     @ [bs] @ '')''"

definition re_subprocess :: string where
  "re_subprocess = ''subprocess'' @ [bs] @ ''.(?:call|run|Popen)'' @ [bs] @ ''s*'' @ [bs] @ ''([^,''
     @ [bs] @ '')]*'' @ [bs] @ ''+[^,'' @ [bs] @ '')]*''"

definition re_eval :: string where
  "re_eval = ''eval'' @ [bs] @ ''s*'' @ [bs] @ ''([^)]*(?:request|input|argv)''"

definition re_traversal :: string where
  "re_traversal = ''(?:open|file)'' @ [bs] @ ''s*'' @ [bs] @ ''([^)]*'' @ [bs] @ ''.'' @ [bs] @ ''.[/''
     @ [bs, bs] @ '']''"

definition re_weak_hash :: string where
  "re_weak_hash = ''(?:MD5|SHA1)'' @ [bs] @ ''s*'' @ [bs] @ ''(''"

definition re_random :: string where
  "re_random = ''random'' @ [bs] @ ''.random'' @ [bs] @ ''s*'' @ [bs] @ ''('' @ [bs] @ '')''"

definition re_cors :: string where
  "re_cors = ''Access-Control-Allow-Origin.*?'' @ [bs] @ ''*''"

definition re_pickle :: string where
  "re_pickle = ''pickle'' @ [bs] @ ''.loads?'' @ [bs] @ ''s*'' @ [bs] @ ''(''"

definition re_yaml :: string where
  "re_yaml = ''yaml'' @ [bs] @ ''.load'' @ [bs] @ ''s*'' @ [bs] @ ''([^,)]*'' @ [bs] @ '')''"

text \<open>\<^verbatim>\<open>SecurityAnalyzer._load_security_patterns\<close>: the table, in declaration order.\<close>

definition load_security_patterns :: "SecurityPattern list" where
  "load_security_patterns =
    [mk_pattern re_password ''HIGH'' ''Hardcoded password''
       [''.py'', ''.js'', ''.java'', ''.cs'', ''.go''],
     mk_pattern re_api_key ''HIGH'' ''Hardcoded API key''
       [''.py'', ''.js'', ''.java'', ''.cs'', ''.go'', ''.yml'', ''.yaml''],
     mk_pattern re_secret ''HIGH'' ''Hardcoded secret/token''
       [''.py'', ''.js'', ''.java'', ''.cs'', ''.go''],
     mk_pattern re_sql_percent ''HIGH'' ''Potential SQL injection''
       [''.py'', ''.php'', ''.java''],
     mk_pattern re_sql_fstring ''HIGH'' ''SQL injection via f-string'' [''.py''],
     mk_pattern re_os_system ''CRITICAL'' ''Command injection risk'' [''.py''],
     mk_pattern re_subprocess ''HIGH'' ''Command injection via subprocess'' [''.py''],
     mk_pattern re_eval ''CRITICAL'' ''Code injection via eval'' [''.py'', ''.js'', ''.php''],
     mk_pattern re_traversal ''MEDIUM'' ''Path traversal vulnerability''
       [''.py'', ''.js'', ''.java''],
     mk_pattern re_weak_hash ''MEDIUM'' ''Weak cryptographic hash''
       [''.py'', ''.js'', ''.java'', ''.cs''],
     mk_pattern re_random ''LOW'' ''Insecure random for security'' [''.py''],
     mk_pattern re_cors ''MEDIUM'' ''Overly permissive CORS'' [''.py'', ''.js'', ''.java''],
     mk_pattern re_pickle ''HIGH'' ''Unsafe deserialization'' [''.py''],
     mk_pattern re_yaml ''HIGH'' ''Unsafe YAML loading'' [''.py'']]"

text \<open>
  One finding, the dictionary \<^verbatim>\<open>vuln\<close> of \<^verbatim>\<open>analyze_content\<close>: keys \<^verbatim>\<open>type\<close>,
  \<^verbatim>\<open>severity\<close>, \<^verbatim>\<open>pattern\<close>, \<^verbatim>\<open>matches\<close> and \<^verbatim>\<open>file\<close>.
\<close>

record finding =
  vuln_type :: string
  vuln_severity :: string
  vuln_pattern :: string
  vuln_matches :: nat
  vuln_file :: string

text \<open>
  The score is a Python float that starts at \<^verbatim>\<open>100.0\<close> and only ever has 30, 20, 10 or 5
  subtracted, at most fourteen times: every value it takes is an integer of small magnitude,
  which a float holds exactly. It is modelled as an \<^typ>\<open>int\<close>.
\<close>

definition score_penalty :: "string \<Rightarrow> int" where
  "score_penalty sev =
     (if sev = ''CRITICAL'' then 30
      else if sev = ''HIGH'' then 20
      else if sev = ''MEDIUM'' then 10
      else 5)"

definition make_vuln :: "SecurityPattern \<Rightarrow> nat \<Rightarrow> string \<Rightarrow> finding" where
  "make_vuln p n file_path =
     \<lparr>vuln_type = description p, vuln_severity = severity p,
      vuln_pattern = take 50 (pattern p) @ ''...'', vuln_matches = n, vuln_file = file_path\<rparr>"

text \<open>
  The body of the \<^verbatim>\<open>for pattern in self.patterns\<close> loop of \<^verbatim>\<open>analyze_content\<close>, on the
  running score and the findings so far. \<^verbatim>\<open>pattern.regex\<close> is set by \<^verbatim>\<open>__post_init__\<close> exactly
  when the pattern text is not empty.
\<close>

definition analyze_step ::
  "pylib \<Rightarrow> string \<Rightarrow> string \<Rightarrow> string \<Rightarrow> SecurityPattern \<Rightarrow> int \<times> finding list \<Rightarrow> int \<times> finding list" where
  "analyze_step L content file_path file_ext p acc =
     (if file_ext \<notin> set (file_types p) then acc
      else if pattern p = [] then acc
      else let matches = re_findall L (pattern p) content in
        if matches = [] then acc
        else (fst acc - score_penalty (severity p),
              snd acc @ [make_vuln p (length matches) file_path]))"

fun analyze_loop ::
  "pylib \<Rightarrow> string \<Rightarrow> string \<Rightarrow> string \<Rightarrow> SecurityPattern list \<Rightarrow> int \<times> finding list \<Rightarrow> int \<times> finding list" where
  "analyze_loop L content file_path file_ext [] acc = acc"
| "analyze_loop L content file_path file_ext (p # ps) acc =
     analyze_loop L content file_path file_ext ps (analyze_step L content file_path file_ext p acc)"

definition analyze_content :: "pylib \<Rightarrow> string \<Rightarrow> string \<Rightarrow> int \<times> finding list" where
  "analyze_content L content file_path =
     (let file_ext = lower (path_suffix file_path);
          r = analyze_loop L content file_path file_ext load_security_patterns (100, [])
      in (max 0 (fst r), snd r))"

text \<open>
  The specification's wording of the same function: the rules that apply to the extension and
  match at least once, in declaration order; one finding for each; the penalties 30, 20, 10 and
  5 for the four severities.
\<close>

definition spec_penalty :: "string \<Rightarrow> int" where
  "spec_penalty sev =
     (if sev = ''CRITICAL'' then 30 else if sev = ''HIGH'' then 20
      else if sev = ''MEDIUM'' then 10 else if sev = ''LOW'' then 5 else 0)"

definition matched_patterns :: "pylib \<Rightarrow> string \<Rightarrow> string \<Rightarrow> SecurityPattern list" where
  "matched_patterns L content file_path =
     filter (\<lambda>p. lower (path_suffix file_path) \<in> set (file_types p)
                 \<and> re_findall L (pattern p) content \<noteq> [])
       load_security_patterns"

definition spec_analyze :: "pylib \<Rightarrow> string \<Rightarrow> string \<Rightarrow> int \<times> finding list" where
  "spec_analyze L content file_path =
     (let ms = matched_patterns L content file_path
      in (max 0 (100 - sum_list (map (\<lambda>p. spec_penalty (severity p)) ms)),
          map (\<lambda>p. make_vuln p (length (re_findall L (pattern p) content)) file_path) ms))"


section \<open>The data model\<close>

datatype FileType = SOURCE_CODE | CONFIG | BINARY | DOCUMENTATION | DATA | SECURITY_SENSITIVE

text \<open>The \<^verbatim>\<open>metadata\<close> dictionary of an entry: keys \<^verbatim>\<open>mime_type\<close>, \<^verbatim>\<open>encoding\<close>, \<^verbatim>\<open>lines\<close>.\<close>

record metadata =
  mime_type :: "string option"
  encoding :: string
  lines :: int

text \<open>
  \<^verbatim>\<open>CacheEntry\<close>. Timestamps are Python floats that the code only stores and compares; they
  are modelled as \<^typ>\<open>real\<close>. The field \<^verbatim>\<open>size\<close> is named \<open>size'\<close>.
\<close>

record CacheEntry =
  path :: string
  checksum :: string
  size' :: nat
  modified_time :: real
  cached_time :: real
  compressed :: bool
  access_count :: int
  last_accessed :: real
  content_path :: string
  file_type :: FileType
  git_sha :: "string option"
  security_score :: int
  vulnerabilities :: "finding list"
  metadata :: metadata
  partition_key :: "string option"

record CachePartition =
  partition_id :: string
  path_prefix :: string
  db_file :: string
  size_mb :: real
  file_count :: nat
  last_updated :: real

record GitChange =
  file_path :: string
  change_type :: string
  old_sha :: "string option"
  new_sha :: "string option"
  diff_lines :: "(int \<times> string) list"

text \<open>\<^verbatim>\<open>GitIntegration\<close>: the repository path, and whether \<^verbatim>\<open>git.Repo\<close> accepted it.\<close>

record GitIntegration =
  repo_path :: string
  repo :: bool

text \<open>The options of \<^verbatim>\<open>_load_config\<close> that the modelled functions read.\<close>

record config =
  max_file_size_mb :: nat
  compression_threshold_kb :: nat
  security_analysis :: bool
  partition_count :: nat

definition default_config :: config where
  "default_config =
     \<lparr>max_file_size_mb = 50, compression_threshold_kb = 100, security_analysis = True,
      partition_count = 4\<rparr>"

subsection \<open>The persistent store\<close>

text \<open>A row of a partition's table \<^verbatim>\<open>partition_cache\<close>, without its key \<^verbatim>\<open>path\<close>.\<close>

record blob_row =
  row_content :: string
  row_compressed :: bool
  row_size :: nat
  row_checksum :: string

text \<open>A row of the table \<^verbatim>\<open>vulnerabilities\<close>, without its generated \<^verbatim>\<open>id\<close>.\<close>

record vuln_row =
  v_file_path :: string
  v_vulnerability_type :: string
  v_severity :: string
  v_line_number :: int
  v_detected_time :: real
  v_resolved :: bool

record commit_row =
  commit_sha :: string
  commit_time :: real
  files_changed :: nat
  commit_cached_time :: real

text \<open>A row of the table \<^verbatim>\<open>performance_metrics\<close>; \<^verbatim>\<open>timestamp\<close> is its primary key.\<close>

record metric_row =
  m_timestamp :: real
  m_cache_hits :: int
  m_cache_misses :: int
  m_avg_response_time_ms :: real
  m_memory_usage_mb :: real
  m_partition_balance :: "(string \<times> nat) list"

subsection \<open>The in-memory tiers\<close>

text \<open>
  \<^verbatim>\<open>cachetools.LRUCache(maxsize=1000)\<close>: the items from least to most recently used.
  Membership does not touch the order; reading and writing an item make it the most recent; a
  write of a new key first evicts from the least recent end while the cache is full.
\<close>

type_synonym lru = "(string \<times> CacheEntry) list"

definition lru_maxsize :: nat where "lru_maxsize = 1000"

definition lru_contains :: "lru \<Rightarrow> string \<Rightarrow> bool" where
  "lru_contains c k = (map_of c k \<noteq> None)"

definition lru_touch :: "lru \<Rightarrow> string \<Rightarrow> lru" where
  "lru_touch c k =
     (case map_of c k of None \<Rightarrow> c | Some v \<Rightarrow> AList.delete k c @ [(k, v)])"

definition lru_setitem :: "lru \<Rightarrow> string \<Rightarrow> CacheEntry \<Rightarrow> lru" where
  "lru_setitem c k v =
     (if lru_contains c k then AList.delete k c @ [(k, v)]
      else drop (Suc (length c) - lru_maxsize) c @ [(k, v)])"

definition lru_pop :: "lru \<Rightarrow> string \<Rightarrow> lru" where
  "lru_pop c k = AList.delete k c"

text \<open>
  \<^verbatim>\<open>cachetools.TTLCache(maxsize=5000, ttl=3600)\<close>: the items in insertion order, each with the
  reading of the cache's timer (\<^verbatim>\<open>time.monotonic\<close>) at which it expires. An item is visible
  while the timer is before its expiry. A write first drops the expired items, then evicts
  the oldest ones while the cache is full.
\<close>

type_synonym ttl = "(string \<times> CacheEntry \<times> real) list"

definition ttl_maxsize :: nat where "ttl_maxsize = 5000"
definition ttl_seconds :: real where "ttl_seconds = 3600"

definition ttl_getitem :: "ttl \<Rightarrow> real \<Rightarrow> string \<Rightarrow> CacheEntry option" where
  "ttl_getitem c t k =
     (case map_of c k of None \<Rightarrow> None | Some (v, ex) \<Rightarrow> if t < ex then Some v else None)"

definition ttl_contains :: "ttl \<Rightarrow> real \<Rightarrow> string \<Rightarrow> bool" where
  "ttl_contains c t k = (ttl_getitem c t k \<noteq> None)"

definition ttl_expire :: "ttl \<Rightarrow> real \<Rightarrow> ttl" where
  "ttl_expire c t = filter (\<lambda>(k, v, ex). t < ex) c"

definition ttl_setitem :: "ttl \<Rightarrow> real \<Rightarrow> string \<Rightarrow> CacheEntry \<Rightarrow> ttl" where
  "ttl_setitem c t k v =
     (let c1 = ttl_expire c t in
      if map_of c1 k \<noteq> None then AList.delete k c1 @ [(k, v, t + ttl_seconds)]
      else drop (Suc (length c1) - ttl_maxsize) c1 @ [(k, v, t + ttl_seconds)])"

definition ttl_pop :: "ttl \<Rightarrow> real \<Rightarrow> string \<Rightarrow> ttl" where
  "ttl_pop c t k = (if ttl_contains c t k then AList.delete k c else c)"

definition ttl_len :: "ttl \<Rightarrow> real \<Rightarrow> nat" where
  "ttl_len c t = length (ttl_expire c t)"

subsection \<open>The engine and its environment\<close>

text \<open>
  The state of a \<^verbatim>\<open>ClaudeCacheSecurityEnhanced\<close> object together with the contents of its
  stores. \<open>db_lock\<close> tells whether the running thread holds \<^verbatim>\<open>self._db_lock\<close>, a
  \<^verbatim>\<open>threading.Lock\<close>, which is not reentrant. \<open>stats\<close> is the \<^verbatim>\<open>defaultdict(int)\<close>.
  \<open>security_cache\<close>, \<open>vulnerabilities_tbl\<close>, \<open>git_commits\<close> and \<open>performance_metrics\<close> are
  the tables of the index store; \<open>partition_cache f\<close> is the table of the partition store
  with backing file \<open>f\<close>, one pair for each primary key. The pool of connections, the
  executors and the background threads have no part in the functions modelled here and are
  left out.
\<close>

record engine =
  cache_dir :: string
  allowed_dirs :: "string list"
  config :: config
  partitions :: "(string \<times> CachePartition) list"
  git_integration :: "GitIntegration option"
  memory_cache :: lru
  ttl_cache :: ttl
  stats :: "(string \<times> int) list"
  db_lock :: bool
  security_cache :: "string \<rightharpoonup> CacheEntry"
  vulnerabilities_tbl :: "vuln_row list"
  git_commits :: "commit_row list"
  performance_metrics :: "metric_row list"
  partition_cache :: "string \<Rightarrow> (string \<times> blob_row) list"

text \<open>A file on disk: its bytes, its modification time, and whether it can be opened.\<close>

record disk_file =
  content :: string
  st_mtime :: real
  readable :: bool

text \<open>
  What a call reads from outside the engine: \<open>resolve p\<close> is \<^verbatim>\<open>str(Path(p).resolve())\<close>
  (None when it raises), \<open>files\<close> maps a resolved path to the file there, \<open>now\<close> is
  \<^verbatim>\<open>time.time()\<close> and \<open>monotonic\<close> the timer of the warm tier (one reading of each for a
  call), \<open>hash_object p\<close> is \<^verbatim>\<open>repo.git.hash_object(p)\<close> (None when it raises), \<open>git_diff\<close>
  is the output of \<^verbatim>\<open>repo.git.diff(base, target, name_status=True)\<close> (None when it raises) and
  \<open>rss\<close> is the resident memory that \<^verbatim>\<open>psutil\<close> reports.
\<close>

record world =
  resolve :: "string \<Rightarrow> string option"
  files :: "string \<rightharpoonup> disk_file"
  now :: real
  monotonic :: real
  hash_object :: "string \<Rightarrow> string option"
  git_diff :: "string \<Rightarrow> string \<Rightarrow> string option"
  rss :: nat

text \<open>
  How a call ends: it returns a value, it raises, or it never returns because the thread
  waits for a lock that it holds itself.
\<close>

datatype exn = KeyError | OSError | ValueError | ZeroDivisionError | IntegrityError
  | OperationalError | ResolveError

datatype 'a outcome = Return 'a | Raise exn | Deadlock

definition bind_out ::
  "'a outcome \<times> engine \<Rightarrow> ('a \<Rightarrow> engine \<Rightarrow> 'b outcome \<times> engine) \<Rightarrow> 'b outcome \<times> engine" where
  "bind_out m f =
     (case m of
        (Return a, s) \<Rightarrow> f a s
      | (Raise e, s) \<Rightarrow> (Raise e, s)
      | (Deadlock, s) \<Rightarrow> (Deadlock, s))"

text \<open>\<^verbatim>\<open>self.stats[k] += 1\<close> and \<^verbatim>\<open>self.stats.get(k, d)\<close>.\<close>

definition stats_incr :: "string \<Rightarrow> engine \<Rightarrow> engine" where
  "stats_incr k s =
     s\<lparr>stats := AList.update k (case map_of (stats s) k of None \<Rightarrow> 1 | Some n \<Rightarrow> n + 1) (stats s)\<rparr>"

definition stats_get :: "engine \<Rightarrow> string \<Rightarrow> int \<Rightarrow> int" where
  "stats_get s k d = (case map_of (stats s) k of None \<Rightarrow> d | Some n \<Rightarrow> n)"


section \<open>The partition router\<close>

text \<open>
  \<^verbatim>\<open>hexdigest()\<close>: the 32 lower-case hexadecimal digits of the digest, most significant
  first. \<^verbatim>\<open>int(s, 16)\<close> on a string of hexadecimal digits, None for the \<^verbatim>\<open>ValueError\<close>.
\<close>

definition hexchar :: "nat \<Rightarrow> char" where
  "hexchar n = ''0123456789abcdef'' ! n"

definition hexdigest :: "128 word \<Rightarrow> string" where
  "hexdigest w = map (\<lambda>i. hexchar (unat (take_bit 4 (drop_bit (4 * (31 - i)) w)))) [0..<32]"

definition hexval :: "char \<Rightarrow> nat option" where
  "hexval c =
     (let n = (of_char c :: nat) in
      if 48 \<le> n \<and> n \<le> 57 then Some (n - 48)
      else if 97 \<le> n \<and> n \<le> 102 then Some (n - 87)
      else if 65 \<le> n \<and> n \<le> 70 then Some (n - 55)
      else None)"

fun int_of_hex_acc :: "nat \<Rightarrow> string \<Rightarrow> nat option" where
  "int_of_hex_acc a [] = Some a"
| "int_of_hex_acc a (c # cs) =
     (case hexval c of None \<Rightarrow> None | Some d \<Rightarrow> int_of_hex_acc (16 * a + d) cs)"

definition int_of_hex :: "string \<Rightarrow> nat option" where
  "int_of_hex s = (if s = [] then None else int_of_hex_acc 0 s)"

definition partition_name :: "nat \<Rightarrow> string" where
  "partition_name i = ''partition_'' @ string_of_nat i"

text \<open>
  \<^verbatim>\<open>_init_partitions\<close>: one \<^verbatim>\<open>CachePartition\<close> for each \<^verbatim>\<open>i\<close> in
  \<^verbatim>\<open>range(partition_count)\<close>, stored under the key \<^verbatim>\<open>partition_i\<close>. The count is read from
  the configuration of the state. (The constructor is not modelled; it calls this method
  before it assigns \<^verbatim>\<open>self.config\<close>.)
\<close>

definition new_partition :: "world \<Rightarrow> engine \<Rightarrow> nat \<Rightarrow> CachePartition" where
  "new_partition W s i =
     \<lparr>partition_id = partition_name i, path_prefix = [],
      db_file = cache_dir s @ ''/partitions/'' @ partition_name i @ ''.db'',
      size_mb = 0, file_count = 0, last_updated = now W\<rparr>"

definition init_partitions :: "world \<Rightarrow> engine \<Rightarrow> engine" where
  "init_partitions W s =
     s\<lparr>partitions :=
         fold (\<lambda>i ps. AList.update (partition_name i) (new_partition W s i) ps)
           [0..<partition_count (config s)] (partitions s)\<rparr>"

text \<open>
  \<^verbatim>\<open>_get_partition_for_path\<close>. The modulus is \<^verbatim>\<open>len(self.partitions)\<close>; with no partition
  the division raises.
\<close>

definition get_partition_for_path :: "pylib \<Rightarrow> engine \<Rightarrow> string \<Rightarrow> string outcome" where
  "get_partition_for_path L s fp =
     (let path_hash = hexdigest (md5 L fp) in
      case int_of_hex (take 2 path_hash) of
        None \<Rightarrow> Raise ValueError
      | Some b \<Rightarrow>
          if length (partitions s) = 0 then Raise ZeroDivisionError
          else Return (partition_name (b mod length (partitions s))))"

section \<open>The file classifier\<close>

definition source_extensions :: "string list" where
  "source_extensions =
     [''.py'', ''.js'', ''.ts'', ''.java'', ''.cs'', ''.go'', ''.php'', ''.rb'', ''.c'', ''.cpp'',
      ''.rs'']"

definition config_extensions :: "string list" where
  "config_extensions = [''.yml'', ''.yaml'', ''.json'', ''.xml'', ''.conf'', ''.ini'', ''.toml'']"

definition doc_extensions :: "string list" where
  "doc_extensions = [''.md'', ''.txt'', ''.rst'', ''.adoc'']"

definition determine_file_type :: "string \<Rightarrow> FileType" where
  "determine_file_type p =
     (let ext = lower (path_suffix p) in
      if ext \<in> set source_extensions then SOURCE_CODE
      else if ext \<in> set config_extensions then CONFIG
      else if ext \<in> set doc_extensions then DOCUMENTATION
      else if path_name p \<in> set [''Dockerfile'', ''Makefile'', ''.env'', ''.gitignore''] then CONFIG
      else DATA)"

section \<open>Connections to the stores\<close>

text \<open>
  \<^verbatim>\<open>_get_db_connection(partition_id)\<close> first chooses the backing file: the index store when
  \<^verbatim>\<open>partition_id\<close> is None or empty, else \<^verbatim>\<open>self.partitions[partition_id].db_file\<close>, a
  \<^verbatim>\<open>KeyError\<close> when there is no such partition. It then takes \<^verbatim>\<open>self._db_lock\<close> and keeps it
  for the whole body of the caller's \<^verbatim>\<open>with\<close> block. A thread that already holds the lock
  waits for ever. No body of such a block touches the lock, so the model only checks that
  the lock is free where the block is entered.
\<close>

datatype db_target = IndexDb | PartDb string

definition get_db_connection :: "engine \<Rightarrow> string option \<Rightarrow> db_target outcome" where
  "get_db_connection s pid =
     (let target =
        (case pid of
           None \<Rightarrow> Return IndexDb
         | Some k \<Rightarrow>
             if k = [] then Return IndexDb
             else (case map_of (partitions s) k of
                     None \<Rightarrow> Raise KeyError
                   | Some pt \<Rightarrow> Return (PartDb (db_file pt))))
      in case target of
           Return t \<Rightarrow> if db_lock s then Deadlock else Return t
         | other \<Rightarrow> other)"

text \<open>\<^verbatim>\<open>_get_cache_entry\<close>: the row of the index for a path, if there is one.\<close>

definition get_cache_entry :: "engine \<Rightarrow> string \<Rightarrow> CacheEntry option outcome" where
  "get_cache_entry s fp =
     (case get_db_connection s None of
        Return t \<Rightarrow> Return (security_cache s fp)
      | Raise e \<Rightarrow> Raise e
      | Deadlock \<Rightarrow> Deadlock)"

text \<open>\<^verbatim>\<open>_update_access_stats\<close>: an \<^verbatim>\<open>UPDATE\<close> of the row with that path, then the hit counter.\<close>

definition update_access_stats :: "world \<Rightarrow> engine \<Rightarrow> string \<Rightarrow> unit outcome \<times> engine" where
  "update_access_stats W s fp =
     (case get_db_connection s None of
        Return t \<Rightarrow>
          (Return (),
           stats_incr ''cache_hits''
             (s\<lparr>security_cache :=
                  (case security_cache s fp of
                     None \<Rightarrow> security_cache s
                   | Some e \<Rightarrow> (security_cache s)
                       (fp \<mapsto> e\<lparr>access_count := access_count e + 1, last_accessed := now W\<rparr>))\<rparr>))
      | Raise e \<Rightarrow> (Raise e, s)
      | Deadlock \<Rightarrow> (Deadlock, s))"

text \<open>
  \<^verbatim>\<open>_read_cached_content\<close>. Every exception is caught and gives None; the partition table is
  not a table of the index store, so a query for it there raises and gives None as well.
\<close>

definition read_cached_content :: "pylib \<Rightarrow> engine \<Rightarrow> CacheEntry \<Rightarrow> string option outcome" where
  "read_cached_content L s entry =
     (case get_db_connection s (partition_key entry) of
        Deadlock \<Rightarrow> Deadlock
      | Raise e \<Rightarrow> Return None
      | Return IndexDb \<Rightarrow> Return None
      | Return (PartDb f) \<Rightarrow>
          (case map_of (partition_cache s f) (path entry) of
             None \<Rightarrow> Return None
           | Some row \<Rightarrow>
               if row_compressed row then Return (gzip_decompress L (row_content row))
               else Return (Some (row_content row))))"

text \<open>\<^verbatim>\<open>_store_in_partition\<close>, \<^verbatim>\<open>_update_index\<close> and \<^verbatim>\<open>_store_vulnerabilities\<close>.\<close>

definition store_in_partition ::
  "engine \<Rightarrow> CacheEntry \<Rightarrow> string \<Rightarrow> string \<Rightarrow> unit outcome \<times> engine" where
  "store_in_partition s entry bytes pid =
     (case get_db_connection s (Some pid) of
        Deadlock \<Rightarrow> (Deadlock, s)
      | Raise e \<Rightarrow> (Raise e, s)
      | Return IndexDb \<Rightarrow> (Raise OperationalError, s)
      | Return (PartDb f) \<Rightarrow>
          (Return (),
           s\<lparr>partition_cache := (partition_cache s)
               (f := AList.update (path entry)
                       \<lparr>row_content = bytes, row_compressed = compressed entry,
                        row_size = size' entry, row_checksum = checksum entry\<rparr>
                       (partition_cache s f))\<rparr>))"

definition update_index :: "engine \<Rightarrow> CacheEntry \<Rightarrow> unit outcome \<times> engine" where
  "update_index s entry =
     (case get_db_connection s None of
        Return t \<Rightarrow> (Return (), s\<lparr>security_cache := (security_cache s)(path entry \<mapsto> entry)\<rparr>)
      | Raise e \<Rightarrow> (Raise e, s)
      | Deadlock \<Rightarrow> (Deadlock, s))"

definition vuln_row_of :: "world \<Rightarrow> string \<Rightarrow> finding \<Rightarrow> vuln_row" where
  "vuln_row_of W fp v =
     \<lparr>v_file_path = fp, v_vulnerability_type = vuln_type v, v_severity = vuln_severity v,
      v_line_number = - 1, v_detected_time = now W, v_resolved = False\<rparr>"

definition store_vulnerabilities ::
  "world \<Rightarrow> engine \<Rightarrow> string \<Rightarrow> finding list \<Rightarrow> unit outcome \<times> engine" where
  "store_vulnerabilities W s fp vs =
     (case get_db_connection s None of
        Return t \<Rightarrow>
          (Return (), s\<lparr>vulnerabilities_tbl := vulnerabilities_tbl s @ map (vuln_row_of W fp) vs\<rparr>)
      | Raise e \<Rightarrow> (Raise e, s)
      | Deadlock \<Rightarrow> (Deadlock, s))"


section \<open>The ingestion pipeline\<close>

text \<open>
  \<^verbatim>\<open>_validate_path\<close>. \<^verbatim>\<open>relative_to\<close> succeeds when the components of the allowed directory
  are a prefix of the components of the path; both paths are resolved, hence absolute with
  the root \<^verbatim>\<open>/\<close>. Any exception, also one raised while an allowed directory is resolved, gives
  False.
\<close>

fun validate_loop :: "world \<Rightarrow> string \<Rightarrow> string list \<Rightarrow> bool" where
  "validate_loop W rp [] = False"
| "validate_loop W rp (d # ds) =
     (case resolve W d of
        None \<Rightarrow> False
      | Some a \<Rightarrow> if prefix (path_parts a) (path_parts rp) then True else validate_loop W rp ds)"

definition validate_path :: "world \<Rightarrow> engine \<Rightarrow> string \<Rightarrow> bool" where
  "validate_path W s fp =
     (case resolve W fp of None \<Rightarrow> False | Some rp \<Rightarrow> validate_loop W rp (allowed_dirs s))"

text \<open>
  \<^verbatim>\<open>_read_file_efficiently\<close>: None when \<^verbatim>\<open>stat\<close> raises, when the file is larger than the
  ceiling, and when the read raises. The plain read and the memory-mapped read give the same
  bytes.
\<close>

definition read_file_efficiently :: "world \<Rightarrow> engine \<Rightarrow> string \<Rightarrow> string option" where
  "read_file_efficiently W s p =
     (case files W p of
        None \<Rightarrow> None
      | Some f \<Rightarrow>
          let file_size = length (content f);
              max_size = max_file_size_mb (config s) * 1024 * 1024
          in if file_size > max_size then None
             else if \<not> readable f then None
             else Some (content f))"

text \<open>The test that guards the security analysis in \<^verbatim>\<open>cache_file_enhanced\<close>.\<close>

definition runs_security_analysis :: "config \<Rightarrow> string \<Rightarrow> bool" where
  "runs_security_analysis cfg p = (security_analysis cfg \<and> determine_file_type p = SOURCE_CODE)"

text \<open>
  The first part of the \<^verbatim>\<open>try\<close> block: unless \<^verbatim>\<open>force\<close>, the index is asked for the
  resolved path; an entry at least as recent as the file is returned as it was read, after
  \<^verbatim>\<open>_update_access_stats\<close>. The result is None when the pipeline has to go on.
\<close>

definition fresh_check ::
  "world \<Rightarrow> engine \<Rightarrow> string \<Rightarrow> bool \<Rightarrow> CacheEntry option outcome \<times> engine" where
  "fresh_check W s p force =
     (if force then (Return None, s)
      else case get_cache_entry s p of
             Deadlock \<Rightarrow> (Deadlock, s)
           | Raise e \<Rightarrow> (Raise e, s)
           | Return None \<Rightarrow> (Return None, s)
           | Return (Some cached_entry) \<Rightarrow>
               (case files W p of
                  None \<Rightarrow> (Raise OSError, s)
                | Some f \<Rightarrow>
                    if modified_time cached_entry \<ge> st_mtime f
                    then bind_out (update_access_stats W s p)
                           (\<lambda>u s1. (Return (Some cached_entry), s1))
                    else (Return None, s)))"

text \<open>\<^verbatim>\<open>with self._db_lock:\<close> around the two writes to the tiers.\<close>

definition populate_tiers ::
  "world \<Rightarrow> engine \<Rightarrow> string \<Rightarrow> CacheEntry \<Rightarrow> unit outcome \<times> engine" where
  "populate_tiers W s p entry =
     (if db_lock s then (Deadlock, s)
      else (Return (),
            s\<lparr>memory_cache := lru_setitem (memory_cache s) p entry,
              ttl_cache := ttl_setitem (ttl_cache s) (monotonic W) p entry\<rparr>))"

definition count_newlines :: "string \<Rightarrow> int" where
  "count_newlines t = int (length (filter (\<lambda>c. c = nl) t))"

text \<open>The entry that \<^verbatim>\<open>cache_file_enhanced\<close> builds for the bytes read from the resolved path.\<close>

definition build_entry ::
  "pylib \<Rightarrow> world \<Rightarrow> engine \<Rightarrow> string \<Rightarrow> disk_file \<Rightarrow> string \<Rightarrow> string \<Rightarrow> CacheEntry" where
  "build_entry L W s p f bytes pid =
     (let ftype = determine_file_type p;
          analysis = (if runs_security_analysis (config s) p
                      then analyze_content L (decode_utf8 L bytes) p else (100, []));
          is_compressed = (length bytes > compression_threshold_kb (config s) * 1024)
      in \<lparr>path = p,
          checksum = sha256_hex L bytes,
          size' = length (content f),
          modified_time = st_mtime f,
          cached_time = now W,
          compressed = is_compressed,
          access_count = 1,
          last_accessed = now W,
          content_path = pid @ ''/'' @ sha256_hex L bytes,
          file_type = ftype,
          git_sha = (case git_integration s of
                       None \<Rightarrow> None
                     | Some g \<Rightarrow> if repo g then hash_object W p else None),
          security_score = fst analysis,
          vulnerabilities = snd analysis,
          metadata = \<lparr>mime_type = guess_type L p, encoding = ''utf-8'',
                      lines = (if is_compressed then - 1
                               else count_newlines (decode_utf8 L bytes))\<rparr>,
          partition_key = Some pid\<rparr>)"

text \<open>The bytes written to the partition: compressed above the threshold, raw otherwise.\<close>

definition stored_bytes :: "pylib \<Rightarrow> engine \<Rightarrow> string \<Rightarrow> string" where
  "stored_bytes L s bytes =
     (if length bytes > compression_threshold_kb (config s) * 1024
      then gzip_compress L bytes else bytes)"

text \<open>The rest of the \<^verbatim>\<open>try\<close> block, from \<^verbatim>\<open>_determine_file_type\<close> on.\<close>

definition ingest ::
  "pylib \<Rightarrow> world \<Rightarrow> engine \<Rightarrow> string \<Rightarrow> CacheEntry option outcome \<times> engine" where
  "ingest L W s p =
     (case read_file_efficiently W s p of
        None \<Rightarrow> (Return None, s)
      | Some bytes \<Rightarrow>
          (case get_partition_for_path L s p of
             Deadlock \<Rightarrow> (Deadlock, s)
           | Raise e \<Rightarrow> (Raise e, s)
           | Return pid \<Rightarrow>
               (case files W p of
                  None \<Rightarrow> (Raise OSError, s)
                | Some f \<Rightarrow>
                    let entry = build_entry L W s p f bytes pid in
                    bind_out (store_in_partition s entry (stored_bytes L s bytes) pid) (\<lambda>u s1.
                    bind_out (update_index s1 entry) (\<lambda>u s2.
                    bind_out (populate_tiers W s2 p entry) (\<lambda>u s3.
                    bind_out (if vulnerabilities entry \<noteq> []
                              then store_vulnerabilities W s3 p (vulnerabilities entry)
                              else (Return (), s3)) (\<lambda>u s4.
                    (Return (Some entry), stats_incr ''cached_files'' s4))))))))"

definition cache_file_body ::
  "pylib \<Rightarrow> world \<Rightarrow> engine \<Rightarrow> string \<Rightarrow> bool \<Rightarrow> CacheEntry option outcome \<times> engine" where
  "cache_file_body L W s fp force =
     (case resolve W fp of
        None \<Rightarrow> (Raise ResolveError, s)
      | Some p \<Rightarrow>
          bind_out (fresh_check W s p force) (\<lambda>hit s1.
            case hit of Some e \<Rightarrow> (Return (Some e), s1) | None \<Rightarrow> ingest L W s1 p))"

text \<open>
  \<^verbatim>\<open>cache_file_enhanced\<close>: the validation, then the \<^verbatim>\<open>try\<close> block, whose handler counts the
  error and returns None.
\<close>

definition cache_file_enhanced ::
  "pylib \<Rightarrow> world \<Rightarrow> engine \<Rightarrow> string \<Rightarrow> bool \<Rightarrow> CacheEntry option outcome \<times> engine" where
  "cache_file_enhanced L W s fp force =
     (if \<not> validate_path W s fp then (Return None, s)
      else case cache_file_body L W s fp force of
             (Raise e, s1) \<Rightarrow> (Return None, stats_incr ''errors'' s1)
           | r \<Rightarrow> r)"

text \<open>An index entry for the path that is at least as recent as the file on disk.\<close>

definition fresh_entry :: "world \<Rightarrow> engine \<Rightarrow> string \<Rightarrow> bool" where
  "fresh_entry W s p =
     (case security_cache s p of
        None \<Rightarrow> False
      | Some e \<Rightarrow> (case files W p of None \<Rightarrow> False | Some f \<Rightarrow> modified_time e \<ge> st_mtime f))"


section \<open>Removal and version-control sync\<close>

text \<open>
  \<^verbatim>\<open>_remove_from_cache\<close>. Without an index entry for the path as it is given, the function
  returns at once. Otherwise it deletes the blob from the partition that the entry names, the
  index row and the vulnerability rows, and pops the path from both tiers.
\<close>

definition remove_from_cache :: "world \<Rightarrow> engine \<Rightarrow> string \<Rightarrow> unit outcome \<times> engine" where
  "remove_from_cache W s fp =
     (case get_cache_entry s fp of
        Deadlock \<Rightarrow> (Deadlock, s)
      | Raise e \<Rightarrow> (Raise e, s)
      | Return None \<Rightarrow> (Return (), s)
      | Return (Some entry) \<Rightarrow>
          (case get_db_connection s (partition_key entry) of
             Deadlock \<Rightarrow> (Deadlock, s)
           | Raise e \<Rightarrow> (Raise e, s)
           | Return IndexDb \<Rightarrow> (Raise OperationalError, s)
           | Return (PartDb f) \<Rightarrow>
               (Return (),
                s\<lparr>partition_cache := (partition_cache s)(f := AList.delete fp (partition_cache s f)),
                  security_cache := (security_cache s)(fp := None),
                  vulnerabilities_tbl := filter (\<lambda>r. v_file_path r \<noteq> fp) (vulnerabilities_tbl s),
                  memory_cache := lru_pop (memory_cache s) fp,
                  ttl_cache := ttl_pop (ttl_cache s) (monotonic W) fp\<rparr>)))"

text \<open>\<^verbatim>\<open>GitIntegration._parse_change_type\<close> and \<^verbatim>\<open>GitIntegration.get_changed_files\<close>.\<close>

definition startswith :: "string \<Rightarrow> char \<Rightarrow> bool" where
  "startswith t c = (case t of [] \<Rightarrow> False | x # xs \<Rightarrow> x = c)"

definition parse_change_type :: "string \<Rightarrow> string" where
  "parse_change_type git_status =
     (if startswith git_status CHR ''A'' then ''added''
      else if startswith git_status CHR ''M'' then ''modified''
      else if startswith git_status CHR ''D'' then ''deleted''
      else if startswith git_status CHR ''R'' then ''renamed''
      else ''unknown'')"

definition parse_diff_line :: "GitIntegration \<Rightarrow> string \<Rightarrow> GitChange list" where
  "parse_diff_line g line =
     (if line = [] then []
      else case split_on CHR 0x09 [] line of
             status # name # rest \<Rightarrow>
               [\<lparr>file_path = path_join (repo_path g) name,
                 change_type = parse_change_type status,
                 old_sha = None, new_sha = None, diff_lines = []\<rparr>]
           | other \<Rightarrow> [])"

definition get_changed_files :: "world \<Rightarrow> GitIntegration \<Rightarrow> string \<Rightarrow> string \<Rightarrow> GitChange list" where
  "get_changed_files W g base_ref target_ref =
     (if \<not> repo g then []
      else case git_diff W base_ref target_ref of
             None \<Rightarrow> []
           | Some d \<Rightarrow> concat (map (parse_diff_line g) (split_on nl [] d)))"

text \<open>
  The loop of \<^verbatim>\<open>update_from_git\<close> over the changes. The result of the pipeline is dropped;
  an exception of the removal leaves the loop.
\<close>

definition sync_change :: "pylib \<Rightarrow> world \<Rightarrow> engine \<Rightarrow> GitChange \<Rightarrow> unit outcome \<times> engine" where
  "sync_change L W s change =
     (if change_type change = ''deleted'' then remove_from_cache W s (file_path change)
      else bind_out (cache_file_enhanced L W s (file_path change) True) (\<lambda>r s1. (Return (), s1)))"

fun sync_changes :: "pylib \<Rightarrow> world \<Rightarrow> engine \<Rightarrow> GitChange list \<Rightarrow> unit outcome \<times> engine" where
  "sync_changes L W s [] = (Return (), s)"
| "sync_changes L W s (change # changes) =
     bind_out (sync_change L W s change) (\<lambda>u s1. sync_changes L W s1 changes)"

definition update_from_git ::
  "pylib \<Rightarrow> world \<Rightarrow> engine \<Rightarrow> string \<Rightarrow> string \<Rightarrow> unit outcome \<times> engine" where
  "update_from_git L W s base_ref target_ref =
     (case git_integration s of
        None \<Rightarrow> (Return (), s)
      | Some g \<Rightarrow> sync_changes L W s (get_changed_files W g base_ref target_ref))"

section \<open>Content retrieval\<close>

text \<open>
  \<^verbatim>\<open>get_cached_content\<close>. The two tiers are read inside \<^verbatim>\<open>with self._db_lock:\<close>, and so is the
  call of \<^verbatim>\<open>_read_cached_content\<close> on a hit; the index is asked after the block has been left.
\<close>

definition read_under_lock ::
  "pylib \<Rightarrow> engine \<Rightarrow> CacheEntry \<Rightarrow> string option outcome \<times> engine" where
  "read_under_lock L s entry =
     (case read_cached_content L s entry of
        Deadlock \<Rightarrow> (Deadlock, s)
      | r \<Rightarrow> (r, s\<lparr>db_lock := False\<rparr>))"

definition get_cached_content ::
  "pylib \<Rightarrow> world \<Rightarrow> engine \<Rightarrow> string \<Rightarrow> string option outcome \<times> engine" where
  "get_cached_content L W s fp =
     (if db_lock s then (Deadlock, s)
      else let s0 = s\<lparr>db_lock := True\<rparr> in
        if lru_contains (memory_cache s0) fp then
          (case map_of (memory_cache s0) fp of
             None \<Rightarrow> (Raise KeyError, s)
           | Some entry \<Rightarrow>
               read_under_lock L (s0\<lparr>memory_cache := lru_touch (memory_cache s0) fp\<rparr>) entry)
        else if ttl_contains (ttl_cache s0) (monotonic W) fp then
          (case ttl_getitem (ttl_cache s0) (monotonic W) fp of
             None \<Rightarrow> (Raise KeyError, s)
           | Some entry \<Rightarrow>
               read_under_lock L (s0\<lparr>memory_cache := lru_setitem (memory_cache s0) fp entry\<rparr>) entry)
        else
          (case get_cache_entry s fp of
             Deadlock \<Rightarrow> (Deadlock, s)
           | Raise e \<Rightarrow> (Raise e, s)
           | Return None \<Rightarrow> (Return None, s)
           | Return (Some entry) \<Rightarrow> (read_cached_content L s entry, s)))"

section \<open>Metrics\<close>

text \<open>
  The dictionary that \<^verbatim>\<open>get_performance_metrics\<close> returns, without the two entries that
  describe the executors.
\<close>

record perf_metrics =
  cache_hits :: int
  cache_misses :: int
  hit_rate_percent :: real
  cached_files :: int
  total_operations :: int
  errors :: int
  memory_usage_mb :: real
  memory_cache_size :: nat
  ttl_cache_size :: nat
  partition_balance :: "(string \<times> nat) list"

text \<open>The \<^verbatim>\<open>COUNT(*)\<close> of each partition's table, in the order of \<^verbatim>\<open>self.partitions\<close>.\<close>

fun partition_counts :: "engine \<Rightarrow> string list \<Rightarrow> (string \<times> nat) list outcome" where
  "partition_counts s [] = Return []"
| "partition_counts s (k # ks) =
     (case get_db_connection s (Some k) of
        Deadlock \<Rightarrow> Deadlock
      | Raise e \<Rightarrow> Raise e
      | Return IndexDb \<Rightarrow> Raise OperationalError
      | Return (PartDb f) \<Rightarrow>
          (case partition_counts s ks of
             Return r \<Rightarrow> Return ((k, length (partition_cache s f)) # r)
           | other \<Rightarrow> other))"

text \<open>
  \<^verbatim>\<open>get_performance_metrics\<close>. Reading \<^verbatim>\<open>self.stats['cache_hits']\<close> creates the counter when it
  is missing. The hit rate is a float division; it is modelled over the reals. The insert
  into the metrics log raises when its primary key, the time of the call, is already there.
  \<^verbatim>\<open>self._stats_lock\<close> is taken nowhere else and is left out.
\<close>

definition get_performance_metrics :: "world \<Rightarrow> engine \<Rightarrow> perf_metrics outcome \<times> engine" where
  "get_performance_metrics W s =
     (let s1 = (if map_of (stats s) ''cache_hits'' = None
                then s\<lparr>stats := AList.update ''cache_hits'' 0 (stats s)\<rparr> else s);
          hits = stats_get s1 ''cache_hits'' 0;
          denom = hits + stats_get s1 ''cache_misses'' 1
      in if denom = 0 then (Raise ZeroDivisionError, s1)
         else case partition_counts s1 (map fst (partitions s1)) of
                Deadlock \<Rightarrow> (Deadlock, s1)
              | Raise e \<Rightarrow> (Raise e, s1)
              | Return partition_sizes \<Rightarrow>
                  let m = \<lparr>cache_hits = hits,
                           cache_misses = stats_get s1 ''cache_misses'' 0,
                           hit_rate_percent = (real_of_int hits / real_of_int denom) * 100,
                           cached_files = stats_get s1 ''cached_files'' 0,
                           total_operations = sum_list (map snd (stats s1)),
                           errors = stats_get s1 ''errors'' 0,
                           memory_usage_mb = real (rss W) / 1024 / 1024,
                           memory_cache_size = length (memory_cache s1),
                           ttl_cache_size = ttl_len (ttl_cache s1) (monotonic W),
                           partition_balance = partition_sizes\<rparr>
                  in case get_db_connection s1 None of
                       Deadlock \<Rightarrow> (Deadlock, s1)
                     | Raise e \<Rightarrow> (Raise e, s1)
                     | Return t \<Rightarrow>
                         if now W \<in> m_timestamp ` set (performance_metrics s1)
                         then (Raise IntegrityError, s1)
                         else (Return m,
                               s1\<lparr>performance_metrics := performance_metrics s1 @
                                   [\<lparr>m_timestamp = now W, m_cache_hits = cache_hits m,
                                     m_cache_misses = cache_misses m,
                                     m_avg_response_time_ms = 0,
                                     m_memory_usage_mb = memory_usage_mb m,
                                     m_partition_balance = partition_sizes\<rparr>]\<rparr>))"

section \<open>The clear command of the daemon\<close>

datatype response = RespSuccess string | RespError string | RespException exn

fun clear_partitions :: "engine \<Rightarrow> CachePartition list \<Rightarrow> unit outcome \<times> engine" where
  "clear_partitions s [] = (Return (), s)"
| "clear_partitions s (pt # pts) =
     (case get_db_connection s (Some (partition_id pt)) of
        Deadlock \<Rightarrow> (Deadlock, s)
      | Raise e \<Rightarrow> (Raise e, s)
      | Return IndexDb \<Rightarrow> (Raise OperationalError, s)
      | Return (PartDb f) \<Rightarrow>
          clear_partitions (s\<lparr>partition_cache := (partition_cache s)(f := [])\<rparr>) pts)"

text \<open>
  \<^verbatim>\<open>CacheSecurityDaemon._handle_clear\<close>, on the engine that the daemon owns. An exception
  becomes an error response.
\<close>

definition handle_clear :: "engine \<Rightarrow> bool \<Rightarrow> response outcome \<times> engine" where
  "handle_clear s confirm =
     (if \<not> confirm then (Return (RespError ''Clear requires confirmation''), s)
      else case clear_partitions s (map snd (partitions s)) of
             (Deadlock, s1) \<Rightarrow> (Deadlock, s1)
           | (Raise e, s1) \<Rightarrow> (Return (RespException e), s1)
           | (Return u, s1) \<Rightarrow>
               (case get_db_connection s1 None of
                  Deadlock \<Rightarrow> (Deadlock, s1)
                | Raise e \<Rightarrow> (Return (RespException e), s1)
                | Return t \<Rightarrow>
                    (Return (RespSuccess ''Cache cleared''),
                     s1\<lparr>security_cache := Map.empty, vulnerabilities_tbl := [],
                        git_commits := [], memory_cache := [], ttl_cache := []\<rparr>)))"


section \<open>A model of the regular expressions of the table\<close>

text \<open>
  The constructs that the fourteen rules use, matched as a backtracking engine does:
  \<open>rx_match r t\<close> lists, in the order in which the engine tries them, the rests of \<open>t\<close>
  after a match of \<open>r\<close> at its start. Letters are compared without case
  (\<^verbatim>\<open>re.IGNORECASE\<close>), a dot does not match a newline, \<^verbatim>\<open>\s\<close> is ASCII white space.
  \<open>rx_findall\<close> scans from left to right for matches that do not overlap and returns the
  matched texts; the analyzer uses only how many there are.
\<close>

datatype rx = Lit char | Dot | Cls "char list" | NCls "char list" | Space | Eps
  | Seq rx rx | Alt rx rx | Opt rx | Star rx | Plus rx | LazyStar rx

definition is_space :: "char \<Rightarrow> bool" where
  "is_space c = (let n = (of_char c :: nat) in (9 \<le> n \<and> n \<le> 13) \<or> (28 \<le> n \<and> n \<le> 32))"

definition in_cls :: "char list \<Rightarrow> char \<Rightarrow> bool" where
  "in_cls cs c = (lower_char c \<in> lower_char ` set cs)"

fun star_greedy :: "(string \<Rightarrow> string list) \<Rightarrow> nat \<Rightarrow> string \<Rightarrow> string list" where
  "star_greedy f 0 t = [t]"
| "star_greedy f (Suc n) t =
     concat (map (\<lambda>u. if length u < length t then star_greedy f n u else []) (f t)) @ [t]"

fun star_lazy :: "(string \<Rightarrow> string list) \<Rightarrow> nat \<Rightarrow> string \<Rightarrow> string list" where
  "star_lazy f 0 t = [t]"
| "star_lazy f (Suc n) t =
     t # concat (map (\<lambda>u. if length u < length t then star_lazy f n u else []) (f t))"

definition one_char :: "(char \<Rightarrow> bool) \<Rightarrow> string \<Rightarrow> string list" where
  "one_char P t = (case t of [] \<Rightarrow> [] | x # xs \<Rightarrow> if P x then [xs] else [])"

fun rx_match :: "rx \<Rightarrow> string \<Rightarrow> string list" where
  "rx_match (Lit c) t = one_char (\<lambda>x. lower_char x = lower_char c) t"
| "rx_match Dot t = one_char (\<lambda>x. x \<noteq> nl) t"
| "rx_match (Cls cs) t = one_char (in_cls cs) t"
| "rx_match (NCls cs) t = one_char (\<lambda>x. \<not> in_cls cs x) t"
| "rx_match Space t = one_char is_space t"
| "rx_match Eps t = [t]"
| "rx_match (Seq a b) t = concat (map (rx_match b) (rx_match a t))"
| "rx_match (Alt a b) t = rx_match a t @ rx_match b t"
| "rx_match (Opt a) t = rx_match a t @ [t]"
| "rx_match (Star a) t = star_greedy (rx_match a) (length t) t"
| "rx_match (Plus a) t =
     concat (map (\<lambda>u. star_greedy (rx_match a) (length u) u) (rx_match a t))"
| "rx_match (LazyStar a) t = star_lazy (rx_match a) (length t) t"

fun rx_scan :: "rx \<Rightarrow> nat \<Rightarrow> string \<Rightarrow> string list" where
  "rx_scan r skip [] = (if skip = 0 \<and> rx_match r [] \<noteq> [] then [[]] else [])"
| "rx_scan r skip (c # cs) =
     (if skip > 0 then rx_scan r (skip - 1) cs
      else case rx_match r (c # cs) of
             [] \<Rightarrow> rx_scan r 0 cs
           | u # us \<Rightarrow>
               let n = length (c # cs) - length u
               in take n (c # cs) # rx_scan r (n - 1) cs)"

definition rx_findall :: "rx \<Rightarrow> string \<Rightarrow> string list" where
  "rx_findall r t = rx_scan r 0 t"

definition lits :: "string \<Rightarrow> rx" where
  "lits t = foldr (\<lambda>c r. Seq (Lit c) r) t Eps"

definition seqs :: "rx list \<Rightarrow> rx" where
  "seqs rs = foldr Seq rs Eps"

fun alts :: "rx list \<Rightarrow> rx" where
  "alts [] = Eps"
| "alts [r] = r"
| "alts (r # rs) = Alt r (alts rs)"

text \<open>The fourteen expressions, read from their texts.\<close>

definition quote_cls :: rx where
  "quote_cls = Cls [dq, sq]"

definition assigned_literal :: "rx list" where
  "assigned_literal =
     [Star Space, Lit CHR ''='', Star Space, quote_cls, Plus (NCls [dq, sq]), quote_cls]"

definition call_open :: "rx list" where
  "call_open = [Star Space, Lit CHR ''('']"

definition rx_password :: rx where
  "rx_password = seqs (alts [lits ''password'', lits ''passwd'', lits ''pwd''] # assigned_literal)"

definition rx_api_key :: rx where
  "rx_api_key =
     seqs (alts [seqs [lits ''api'', Opt (Cls ''_-''), lits ''key''], lits ''apikey'']
           # assigned_literal)"

definition rx_secret :: rx where
  "rx_secret = seqs (alts [lits ''secret'', lits ''token''] # assigned_literal)"

definition rx_sql_percent :: rx where
  "rx_sql_percent =
     seqs (alts [lits ''execute'', lits ''query''] # call_open @
       [Star Space, quote_cls, LazyStar Dot, lits ''%s'', LazyStar Dot, quote_cls,
        LazyStar Dot, Lit CHR ''%'', LazyStar Dot, Lit CHR '')''])"

definition rx_sql_fstring :: rx where
  "rx_sql_fstring =
     seqs (alts [lits ''execute'', lits ''query''] # call_open @
       [Star Space, Lit CHR ''f'', quote_cls, LazyStar Dot, Lit CHR ''{'', LazyStar Dot,
        Lit CHR ''}'', LazyStar Dot, quote_cls])"

definition rx_os_system :: rx where
  "rx_os_system =
     seqs (lits ''os.system'' # call_open @
       [Star (NCls '')''), Lit CHR ''+'', Star (NCls '')''), Lit CHR '')''])"

definition rx_subprocess :: rx where
  "rx_subprocess =
     seqs (lits ''subprocess.'' # alts [lits ''call'', lits ''run'', lits ''Popen''] # call_open @
       [Star (NCls '',)''), Lit CHR ''+'', Star (NCls '',)'')])"

definition rx_eval :: rx where
  "rx_eval =
     seqs (lits ''eval'' # call_open @
       [Star (NCls '')''), alts [lits ''request'', lits ''input'', lits ''argv'']])"

definition rx_traversal :: rx where
  "rx_traversal =
     seqs (alts [lits ''open'', lits ''file''] # call_open @
       [Star (NCls '')''), lits ''..'', Cls [CHR ''/'', bs]])"

definition rx_weak_hash :: rx where
  "rx_weak_hash = seqs (alts [lits ''MD5'', lits ''SHA1''] # call_open)"

definition rx_random :: rx where
  "rx_random = seqs (lits ''random.random'' # call_open @ [Lit CHR '')''])"

definition rx_cors :: rx where
  "rx_cors = seqs [lits ''Access-Control-Allow-Origin'', LazyStar Dot, Lit CHR ''*'']"

definition rx_pickle :: rx where
  "rx_pickle = seqs (lits ''pickle.load'' # Opt (Lit CHR ''s'') # call_open)"

definition rx_yaml :: rx where
  "rx_yaml = seqs (lits ''yaml.load'' # call_open @ [Star (NCls '',)''), Lit CHR '')''])"

definition re_compile :: "string \<Rightarrow> rx option" where
  "re_compile pat =
     map_of
       [(re_password, rx_password), (re_api_key, rx_api_key), (re_secret, rx_secret),
        (re_sql_percent, rx_sql_percent), (re_sql_fstring, rx_sql_fstring),
        (re_os_system, rx_os_system), (re_subprocess, rx_subprocess), (re_eval, rx_eval),
        (re_traversal, rx_traversal), (re_weak_hash, rx_weak_hash), (re_random, rx_random),
        (re_cors, rx_cors), (re_pickle, rx_pickle), (re_yaml, rx_yaml)] pat"

definition model_findall :: "string \<Rightarrow> string \<Rightarrow> string list" where
  "model_findall pat t = (case re_compile pat of None \<Rightarrow> [] | Some r \<Rightarrow> rx_findall r t)"

section \<open>A sample library, environment and engine\<close>

text \<open>
  The theorems below hold for every value of the library parameters. To run the model on
  concrete inputs, the parameters are given small stand-ins: the regular expression model
  above; a digest whose leading byte is the sum of the bytes of its input; a checksum that
  is a decimal number; a compression that puts a two-byte tag in front; a decoder that keeps
  the ASCII bytes.
\<close>

definition sample_md5 :: "string \<Rightarrow> 128 word" where
  "sample_md5 t = push_bit 120 (word_of_nat (sum_list (map of_char t)))"

definition sample_sha256 :: "string \<Rightarrow> string" where
  "sample_sha256 b = string_of_nat (foldl (\<lambda>a c. (31 * a + of_char c) mod 65521) 7 b)"

definition sample_compress :: "string \<Rightarrow> string" where
  "sample_compress b = ''GZ'' @ b"

definition sample_decompress :: "string \<Rightarrow> string option" where
  "sample_decompress b = (if take 2 b = ''GZ'' then Some (drop 2 b) else None)"

definition sample_lib :: pylib where
  "sample_lib =
     \<lparr>re_findall = model_findall, md5 = sample_md5, sha256_hex = sample_sha256,
      gzip_compress = sample_compress, gzip_decompress = sample_decompress,
      decode_utf8 = filter (\<lambda>c. (of_char c :: nat) < 128),
      guess_type = (\<lambda>p. if lower (path_suffix p) = ''.py'' then Some ''text/x-python'' else None)\<rparr>"

text \<open>A three-line Python file with a hard-coded password, and a plain text file.\<close>

definition app_py :: string where
  "app_py = ''x = 1'' @ [nl] @ ''password = '' @ [dq] @ ''abc123'' @ [dq] @ [nl]
     @ ''y = 2'' @ [nl]"

definition sample_files :: "string \<rightharpoonup> disk_file" where
  "sample_files =
     [''/tmp/repo/app.py'' \<mapsto> \<lparr>content = app_py, st_mtime = 1000, readable = True\<rparr>,
      ''/tmp/repo/notes.txt'' \<mapsto> \<lparr>content = ''hello'', st_mtime = 1000, readable = True\<rparr>]"

definition sample_world :: world where
  "sample_world =
     \<lparr>resolve = Some, files = sample_files, now = 2000, monotonic = 50,
      hash_object = (\<lambda>p. None),
      git_diff = (\<lambda>a b. Some (''D'' @ [CHR 0x09] @ ''notes.txt'' @ [nl] @ ''R100'' @ [CHR 0x09]
                              @ ''old.txt'' @ [CHR 0x09] @ ''new.txt'')),
      rss = 104857600\<rparr>"

definition empty_engine :: engine where
  "empty_engine =
     \<lparr>cache_dir = ''/home/u/.claude/cache'', allowed_dirs = [''/home/u'', ''/tmp''],
      config = default_config, partitions = [], git_integration = None,
      memory_cache = [], ttl_cache = [], stats = [], db_lock = False,
      security_cache = Map.empty, vulnerabilities_tbl = [], git_commits = [],
      performance_metrics = [], partition_cache = (\<lambda>f. [])\<rparr>"

definition sample_engine :: engine where
  "sample_engine = init_partitions sample_world empty_engine"


section \<open>Auxiliary functions of the proofs\<close>

text \<open>Reading a decimal rendering back, to show that \<open>string_of_nat\<close> is injective.\<close>

definition digit_val :: "char \<Rightarrow> nat" where
  "digit_val c = of_char c - 48"

definition nat_of_string :: "string \<Rightarrow> nat" where
  "nat_of_string t = foldl (\<lambda>a c. 10 * a + digit_val c) 0 t"

text \<open>
  The partitions as \<open>init_partitions\<close> leaves them: each under its own identifier, which is
  not empty, and no identifier twice.
\<close>

definition partitions_wf :: "(string \<times> CachePartition) list \<Rightarrow> bool" where
  "partitions_wf ps =
     (distinct (map fst ps) \<and> (\<forall>(k, pt)\<in>set ps. partition_id pt = k \<and> k \<noteq> []))"

text \<open>The state after a successful run of the pipeline for the entry \<open>e\<close>.\<close>

definition after_ingest :: "world \<Rightarrow> engine \<Rightarrow> CacheEntry \<Rightarrow> string \<Rightarrow> string \<Rightarrow> engine" where
  "after_ingest W s e dbf bytes =
     stats_incr ''cached_files''
       (s\<lparr>partition_cache := (partition_cache s)
            (dbf := AList.update (path e)
                      \<lparr>row_content = bytes, row_compressed = compressed e,
                       row_size = size' e, row_checksum = checksum e\<rparr>
                      (partition_cache s dbf)),
          security_cache := (security_cache s)(path e \<mapsto> e),
          memory_cache := lru_setitem (memory_cache s) (path e) e,
          ttl_cache := ttl_setitem (ttl_cache s) (monotonic W) (path e) e,
          vulnerabilities_tbl := vulnerabilities_tbl s @ map (vuln_row_of W (path e)) (vulnerabilities e)\<rparr>)"

text \<open>
  The wording of the specification for a rejected path: its canonical form is under none of
  the allowed directories, by components. A path without a canonical form is under none,
  and an allowed directory without a canonical form holds no path.
\<close>

definition not_contained :: "world \<Rightarrow> engine \<Rightarrow> string \<Rightarrow> bool" where
  "not_contained W s fp =
     (case resolve W fp of
        None \<Rightarrow> True
      | Some rp \<Rightarrow>
          list_all
            (\<lambda>d. case resolve W d of
                   None \<Rightarrow> True
                 | Some a \<Rightarrow> \<not> prefix (path_parts a) (path_parts rp))
            (allowed_dirs s))"

section \<open>Sample runs\<close>

text \<open>
  The plain text file of the sample environment is cached once, then asked for again at a
  later time. \<open>zip_engine\<close> compresses every file that is not empty; \<open>capped_engine\<close> is the
  engine after the first call with the size ceiling lowered to zero.
\<close>

definition notes_path :: string where
  "notes_path = ''/tmp/repo/notes.txt''"

definition notes_file :: disk_file where
  "notes_file = \<lparr>content = ''hello'', st_mtime = 1000, readable = True\<rparr>"

definition later_world :: world where
  "later_world = sample_world\<lparr>now := 3000, monotonic := 60\<rparr>"

definition notes_entry :: CacheEntry where
  "notes_entry = build_entry sample_lib sample_world sample_engine notes_path notes_file ''hello''
     ''partition_3''"

definition first_call :: "CacheEntry option outcome \<times> engine" where
  "first_call = cache_file_enhanced sample_lib sample_world sample_engine notes_path False"

definition cached_engine :: engine where
  "cached_engine = snd first_call"

definition second_call :: "CacheEntry option outcome \<times> engine" where
  "second_call = cache_file_enhanced sample_lib later_world cached_engine notes_path False"

definition zip_engine :: engine where
  "zip_engine =
     init_partitions sample_world
       (empty_engine\<lparr>config := default_config\<lparr>compression_threshold_kb := 0\<rparr>\<rparr>)"

definition capped_engine :: engine where
  "capped_engine = cached_engine\<lparr>config := default_config\<lparr>max_file_size_mb := 0\<rparr>\<rparr>"

text \<open>What a call returned, None when it raised or never returned.\<close>

definition returned :: "'a outcome \<times> engine \<Rightarrow> 'a option" where
  "returned r = (case fst r of Return a \<Rightarrow> Some a | Raise e \<Rightarrow> None | Deadlock \<Rightarrow> None)"

text \<open>The metrics asked for after the two calls of the sample run.\<close>

definition sample_metrics :: "perf_metrics outcome \<times> engine" where
  "sample_metrics = get_performance_metrics later_world (snd second_call)"

text \<open>
  Whether a change of a sync touches the index row of the path \<open>fp\<close>: a deletion of \<open>fp\<close>
  itself, or any other change of a path that resolves to \<open>fp\<close>.
\<close>

definition concerns :: "world \<Rightarrow> string \<Rightarrow> GitChange \<Rightarrow> bool" where
  "concerns W fp c =
     (if change_type c = ''deleted'' then file_path c = fp
      else resolve W (file_path c) = Some fp)"

text \<open>
  The engine of the sample run bound to the repository \<^verbatim>\<open>/tmp/repo\<close>, whose diff deletes
  \<^verbatim>\<open>notes.txt\<close> and renames \<^verbatim>\<open>old.txt\<close>; and the same engine with an index that has lost its
  rows while the partition and the tiers still hold the file.
\<close>

definition sample_repo :: GitIntegration where
  "sample_repo = \<lparr>repo_path = ''/tmp/repo'', repo = True\<rparr>"

definition repo_engine :: engine where
  "repo_engine = cached_engine\<lparr>git_integration := Some sample_repo\<rparr>"

definition orphan_engine :: engine where
  "orphan_engine = repo_engine\<lparr>security_cache := Map.empty\<rparr>"

definition deleted_notes :: GitChange where
  "deleted_notes =
     \<lparr>file_path = ''/tmp/repo/notes.txt'', change_type = ''deleted'', old_sha = None,
      new_sha = None, diff_lines = []\<rparr>"

definition renamed_old :: GitChange where
  "renamed_old =
     \<lparr>file_path = ''/tmp/repo/old.txt'', change_type = ''renamed'', old_sha = None,
      new_sha = None, diff_lines = []\<rparr>"

text \<open>The forced call that caches the plain text file on \<open>zip_engine\<close>, and the entry it builds.\<close>

definition zip_entry :: CacheEntry where
  "zip_entry = build_entry sample_lib sample_world zip_engine notes_path notes_file ''hello''
     ''partition_3''"

definition zip_call :: "CacheEntry option outcome \<times> engine" where
  "zip_call = cache_file_enhanced sample_lib sample_world zip_engine notes_path True"

text \<open>
  The same repository bound through the relative name \<^verbatim>\<open>repo\<close>, in a process whose working
  directory is \<^verbatim>\<open>/tmp\<close> (no symbolic links): \<^verbatim>\<open>Path.resolve\<close> puts the working directory in
  front of a relative path. The file is cached through its relative name, then the
  repository is bound and synchronised.
\<close>

definition cwd_resolve :: "string \<Rightarrow> string option" where
  "cwd_resolve p = Some (if path_root p = [] then path_join ''/tmp'' p else p)"

definition cwd_world :: world where
  "cwd_world = sample_world\<lparr>resolve := cwd_resolve\<rparr>"

definition cwd_later_world :: world where
  "cwd_later_world = later_world\<lparr>resolve := cwd_resolve\<rparr>"

definition rel_repo :: GitIntegration where
  "rel_repo = \<lparr>repo_path = ''repo'', repo = True\<rparr>"

definition rel_call :: "CacheEntry option outcome \<times> engine" where
  "rel_call = cache_file_enhanced sample_lib cwd_world sample_engine ''repo/notes.txt'' False"

definition rel_engine :: engine where
  "rel_engine = (snd rel_call)\<lparr>git_integration := Some rel_repo\<rparr>"

section \<open>The pattern engine computes the specified score\<close>

lemma table_patterns_nonempty: "\<forall>p\<in>set load_security_patterns. pattern p \<noteq> []"
  by (simp add: load_security_patterns_def mk_pattern_def re_password_def re_api_key_def
      re_secret_def re_sql_percent_def re_sql_fstring_def re_os_system_def re_subprocess_def
      re_eval_def re_traversal_def re_weak_hash_def re_random_def re_cors_def re_pickle_def
      re_yaml_def)

lemma table_penalty:
  "\<forall>p\<in>set load_security_patterns. score_penalty (severity p) = spec_penalty (severity p)"
  by (simp add: load_security_patterns_def mk_pattern_def score_penalty_def spec_penalty_def)

lemma analyze_loop_eq:
  "\<forall>p\<in>set ps. pattern p \<noteq> [] \<Longrightarrow>
   analyze_loop L c f e ps acc =
     (fst acc - sum_list (map (\<lambda>p. score_penalty (severity p))
                  (filter (\<lambda>p. e \<in> set (file_types p) \<and> re_findall L (pattern p) c \<noteq> []) ps)),
      snd acc @ map (\<lambda>p. make_vuln p (length (re_findall L (pattern p) c)) f)
                  (filter (\<lambda>p. e \<in> set (file_types p) \<and> re_findall L (pattern p) c \<noteq> []) ps))"
proof (induction ps arbitrary: acc)
  case Nil
  then show ?case by simp
next
  case (Cons p ps)
  then show ?case by (simp add: analyze_step_def Let_def)
qed

lemma analyze_refines: "analyze_content L c fp = spec_analyze L c fp"
proof -
  let ?ms = "matched_patterns L c fp"
  have pen: "map (\<lambda>p. score_penalty (severity p)) ?ms = map (\<lambda>p. spec_penalty (severity p)) ?ms"
  proof (rule map_cong [OF refl])
    fix p assume "p \<in> set ?ms"
    then have "p \<in> set load_security_patterns" by (simp add: matched_patterns_def)
    then show "score_penalty (severity p) = spec_penalty (severity p)"
      using table_penalty by blast
  qed
  have "analyze_content L c fp =
      (max 0 (100 - sum_list (map (\<lambda>p. score_penalty (severity p)) ?ms)),
       map (\<lambda>p. make_vuln p (length (re_findall L (pattern p) c)) fp) ?ms)"
    unfolding analyze_content_def Let_def matched_patterns_def
    by (simp add: analyze_loop_eq [OF table_patterns_nonempty])
  then show ?thesis
    unfolding spec_analyze_def Let_def pen by simp
qed

lemma password_only:
  assumes "lower (path_suffix fp) = ''.py''"
    and "re_findall L re_password c \<noteq> []"
    and "\<forall>p\<in>set load_security_patterns.
           description p \<noteq> ''Hardcoded password'' \<longrightarrow> re_findall L (pattern p) c = []"
  shows "analyze_content L c fp =
     (80, [\<lparr>vuln_type = ''Hardcoded password'', vuln_severity = ''HIGH'',
            vuln_pattern = take 50 re_password @ ''...'',
            vuln_matches = length (re_findall L re_password c), vuln_file = fp\<rparr>])"
proof -
  have ms: "matched_patterns L c fp = [mk_pattern re_password ''HIGH'' ''Hardcoded password''
       [''.py'', ''.js'', ''.java'', ''.cs'', ''.go'']]"
    using assms unfolding matched_patterns_def load_security_patterns_def
    by (simp add: mk_pattern_def)
  show ?thesis
    unfolding analyze_refines spec_analyze_def Let_def ms
    by (simp add: mk_pattern_def make_vuln_def spec_penalty_def)
qed

text \<open>
  Claim C1. For every content and path, \<open>analyze_content\<close> returns what the specification
  words: the score is \<open>max 0 (100 - sum of the penalties)\<close>, where each rule whose extension
  list holds the lower-cased extension of the path and that matches at least once gives one
  finding with its number of matches, the penalty being 30, 20, 10 or 5 for CRITICAL, HIGH,
  MEDIUM or LOW, and the findings follow the declaration order of the rules. In particular,
  content under a \<^verbatim>\<open>.py\<close> path that only the hard-coded password rule matches gives the score
  80 and the single HIGH finding "Hardcoded password".
\<close>

theorem analyze_content_score:
  "analyze_content L c fp = spec_analyze L c fp \<and>
   (lower (path_suffix fp) = ''.py'' \<and> re_findall L re_password c \<noteq> [] \<and>
    (\<forall>p\<in>set load_security_patterns.
        description p \<noteq> ''Hardcoded password'' \<longrightarrow> re_findall L (pattern p) c = [])
    \<longrightarrow> analyze_content L c fp =
     (80, [\<lparr>vuln_type = ''Hardcoded password'', vuln_severity = ''HIGH'',
            vuln_pattern = take 50 re_password @ ''...'',
            vuln_matches = length (re_findall L re_password c), vuln_file = fp\<rparr>]))"
  using analyze_refines password_only by blast

lemma sample_suffix: "lower (path_suffix ''/tmp/repo/app.py'') = ''.py''"
  by (simp add: lower_def path_suffix_def path_name_def path_parts_def suffix_of_name_def
      lower_char_def)

lemma sample_password_match:
  "re_findall sample_lib re_password app_py = [''password = '' @ [dq] @ ''abc123'' @ [dq]]"
  by code_simp

lemma sample_others:
  "\<forall>p\<in>set load_security_patterns.
     description p \<noteq> ''Hardcoded password'' \<longrightarrow> re_findall sample_lib (pattern p) app_py = []"
  by code_simp

text \<open>
  The three-line file \<open>app_py\<close> at \<^verbatim>\<open>/tmp/repo/app.py\<close>, with the regular expression model:
  one match of the password rule, none of the other thirteen rules, score 80.
\<close>

theorem analyze_content_score_witness:
  "lower (path_suffix ''/tmp/repo/app.py'') = ''.py'' \<and>
   re_findall sample_lib re_password app_py \<noteq> [] \<and>
   analyze_content sample_lib app_py ''/tmp/repo/app.py'' =
     (80, [\<lparr>vuln_type = ''Hardcoded password'', vuln_severity = ''HIGH'',
            vuln_pattern = take 50 re_password @ ''...'',
            vuln_matches = 1, vuln_file = ''/tmp/repo/app.py''\<rparr>])"
proof -
  have m: "re_findall sample_lib re_password app_py \<noteq> []"
    by (simp add: sample_password_match)
  have "analyze_content sample_lib app_py ''/tmp/repo/app.py'' =
     (80, [\<lparr>vuln_type = ''Hardcoded password'', vuln_severity = ''HIGH'',
            vuln_pattern = take 50 re_password @ ''...'',
            vuln_matches = length (re_findall sample_lib re_password app_py),
            vuln_file = ''/tmp/repo/app.py''\<rparr>])"
    by (rule analyze_content_score [of sample_lib app_py "''/tmp/repo/app.py''",
          THEN conjunct2, THEN mp]) (intro conjI sample_suffix m sample_others)
  then show ?thesis
    using sample_suffix m by (simp add: sample_password_match)
qed

section \<open>The partition router is a function of the path and the partition count\<close>

lemma hexval_hexchar_all: "\<forall>n\<in>set [0..<16]. hexval (hexchar n) = Some n"
  by code_simp

lemma hexval_hexchar: "n < 16 \<Longrightarrow> hexval (hexchar n) = Some n"
  using hexval_hexchar_all by simp

lemma take2_hexdigest:
  "take 2 (hexdigest w) =
     [hexchar (unat (take_bit 4 (drop_bit 124 w))), hexchar (unat (take_bit 4 (drop_bit 120 w)))]"
proof -
  have "[0..<32] = 0 # 1 # [2..<32]" by (simp add: upt_rec)
  then show ?thesis by (simp add: hexdigest_def)
qed

lemma unat_nibble: "unat (take_bit 4 (x :: 128 word)) = unat x mod 16"
proof -
  have "unat (take_bit 4 x) = take_bit 4 (unat x)" by (rule unsigned_take_bit_eq)
  also have "\<dots> = unat x mod 16" by (simp add: take_bit_eq_mod)
  finally show ?thesis .
qed

lemma unat_drop: "unat (drop_bit n (w :: 128 word)) = unat w div 2 ^ n"
proof -
  have "unat (drop_bit n w) = drop_bit n (unat w)" by (rule unat_drop_bit_eq)
  also have "\<dots> = unat w div 2 ^ n" by (simp add: drop_bit_eq_div)
  finally show ?thesis .
qed

lemma nibble_lt: "unat (take_bit 4 (x :: 128 word)) < 16"
  by (simp add: unat_nibble)

lemma top_byte_split:
  "16 * unat (take_bit 4 (drop_bit 124 (w :: 128 word))) + unat (take_bit 4 (drop_bit 120 w))
     = unat (drop_bit 120 w)"
proof -
  have lt: "unat w < 2 ^ 128" using unsigned_less [of w] by simp
  define t where "t = unat w div 2 ^ 120"
  have t: "t < 256" unfolding t_def using lt by (simp add: less_mult_imp_div_less)
  have d: "unat w div 2 ^ 124 = t div 16"
    unfolding t_def by (simp add: div_mult2_eq [symmetric])
  have "16 * unat (take_bit 4 (drop_bit 124 w)) + unat (take_bit 4 (drop_bit 120 w))
      = 16 * ((t div 16) mod 16) + t mod 16"
    unfolding unat_nibble unat_drop d t_def [symmetric] by simp
  also have "\<dots> = t" using t by simp
  finally show ?thesis unfolding unat_drop t_def .
qed

lemma int_of_hex_hexdigest: "int_of_hex (take 2 (hexdigest w)) = Some (unat (drop_bit 120 w))"
  by (simp add: take2_hexdigest int_of_hex_def hexval_hexchar nibble_lt top_byte_split)

lemma digit_val_all: "\<forall>d\<in>set [0..<10]. digit_val (''0123456789'' ! d) = d"
  by code_simp

lemma digit_val_nth: "d < 10 \<Longrightarrow> digit_val (''0123456789'' ! d) = d"
  using digit_val_all by simp

lemma nat_of_string_of_nat: "nat_of_string (string_of_nat n) = n"
proof (induction n rule: string_of_nat.induct)
  case (1 n)
  show ?case
  proof (cases "n < 10")
    case True
    then show ?thesis
      by (subst string_of_nat.simps) (simp add: nat_of_string_def digit_val_nth)
  next
    case False
    then have ih: "nat_of_string (string_of_nat (n div 10)) = n div 10" using 1 by simp
    have "nat_of_string (string_of_nat n) =
        10 * nat_of_string (string_of_nat (n div 10)) + digit_val (''0123456789'' ! (n mod 10))"
      using False by (subst string_of_nat.simps) (simp add: nat_of_string_def)
    then show ?thesis using ih by (simp add: digit_val_nth)
  qed
qed

lemma string_of_nat_inj: "string_of_nat m = string_of_nat n \<Longrightarrow> m = n"
  by (metis nat_of_string_of_nat)

lemma partition_name_inj: "partition_name i = partition_name j \<Longrightarrow> i = j"
  by (simp add: partition_name_def string_of_nat_inj)

lemma partition_name_nonempty: "partition_name i \<noteq> []"
  by (simp add: partition_name_def)

lemma update_fresh: "k \<notin> fst ` set ps \<Longrightarrow> AList.update k v ps = ps @ [(k, v)]"
  by (induction ps) auto

lemma init_fold:
  "fold (\<lambda>i ps. AList.update (partition_name i) (g i) ps) [0..<n] [] =
     map (\<lambda>i. (partition_name i, g i)) [0..<n]"
proof (induction n)
  case 0
  then show ?case by simp
next
  case (Suc n)
  have fresh: "partition_name n \<notin> fst ` set (map (\<lambda>i. (partition_name i, g i)) [0..<n])"
    using partition_name_inj by force
  show ?case
    using Suc fresh by (simp add: update_fresh)
qed

lemma init_partitions_eq:
  "partitions s = [] \<Longrightarrow>
   partitions (init_partitions W s) =
     map (\<lambda>i. (partition_name i, new_partition W s i)) [0..<partition_count (config s)]"
  by (simp add: init_partitions_def init_fold)

lemma map_of_partitions:
  assumes "i < n"
  shows "map_of (map (\<lambda>i. (partition_name i, g i)) [0..<n]) (partition_name i) = Some (g i)"
proof -
  have "distinct (map fst (map (\<lambda>i. (partition_name i, g i)) [0..<n]))"
    by (simp add: distinct_map comp_def inj_on_def partition_name_inj)
  moreover have "(partition_name i, g i) \<in> set (map (\<lambda>i. (partition_name i, g i)) [0..<n])"
    using assms by simp
  ultimately show ?thesis by (rule map_of_is_SomeI)
qed

lemma router_init:
  assumes "0 < partition_count (config s)" and "partitions s = []"
  shows "get_partition_for_path L (init_partitions W s) fp =
     Return (partition_name (unat (drop_bit 120 (md5 L fp)) mod partition_count (config s)))"
    and "map_of (partitions (init_partitions W s))
       (partition_name (unat (drop_bit 120 (md5 L fp)) mod partition_count (config s)))
     = Some (new_partition W s (unat (drop_bit 120 (md5 L fp)) mod partition_count (config s)))"
proof -
  let ?n = "partition_count (config s)"
  let ?i = "unat (drop_bit 120 (md5 L fp)) mod ?n"
  have len: "length (partitions (init_partitions W s)) = ?n"
    using assms by (simp add: init_partitions_eq)
  have i: "?i < ?n" using assms by simp
  show "get_partition_for_path L (init_partitions W s) fp = Return (partition_name ?i)"
    using assms(1) by (simp add: get_partition_for_path_def Let_def int_of_hex_hexdigest len)
  show "map_of (partitions (init_partitions W s)) (partition_name ?i)
      = Some (new_partition W s ?i)"
    using assms i by (simp add: init_partitions_eq map_of_partitions)
qed

text \<open>
  Claim C4. With a fixed number \<open>N > 0\<close> of partitions, created by \<open>init_partitions\<close>,
  the router sends every path to \<^verbatim>\<open>partition_i\<close> where \<open>i\<close> is the leading byte of the
  128-bit digest of the path (the first two hexadecimal digits of its rendering) reduced
  modulo \<open>N\<close>. The result depends on the path and on \<open>N\<close> only, \<open>i\<close> is below \<open>N\<close>, and
  \<^verbatim>\<open>partition_i\<close> is the identifier of one of the partitions of the engine.
\<close>

theorem partition_for_path:
  assumes "0 < partition_count (config s)" and "partitions s = []"
  shows "\<exists>i < partition_count (config s).
           i = unat (drop_bit 120 (md5 L fp)) mod partition_count (config s) \<and>
           get_partition_for_path L (init_partitions W s) fp = Return (partition_name i) \<and>
           map_option partition_id (map_of (partitions (init_partitions W s)) (partition_name i))
             = Some (partition_name i)"
  using assms router_init [OF assms, where L = L and W = W and fp = fp]
  by (simp add: new_partition_def)

lemma sample_md5_byte: "unat (drop_bit 120 (sample_md5 t)) = sum_list (map of_char t) mod 256"
proof -
  have "drop_bit 120 (sample_md5 t) = take_bit 8 (word_of_nat (sum_list (map of_char t)) :: 128 word)"
    unfolding sample_md5_def by (rule bit_word_eqI) (auto simp: bit_simps)
  then have "unat (drop_bit 120 (sample_md5 t))
      = take_bit 8 (unat (word_of_nat (sum_list (map of_char t)) :: 128 word))"
    by (simp only: unsigned_take_bit_eq)
  also have "\<dots> = take_bit 8 (take_bit 128 (sum_list (map of_char t) :: nat))"
    by (simp only: unsigned_of_nat) simp
  also have "\<dots> = take_bit 8 (sum_list (map of_char t) :: nat)"
    by simp
  also have "\<dots> = sum_list (map of_char t) mod 256"
    by (simp add: take_bit_eq_mod)
  finally show ?thesis .
qed

text \<open>The sample engine has four partitions; the sample digest of the path has leading byte 236.\<close>

theorem partition_for_path_witness:
  "0 < partition_count (config empty_engine) \<and> partitions empty_engine = [] \<and>
   get_partition_for_path sample_lib sample_engine ''/tmp/repo/app.py'' = Return ''partition_0''"
proof -
  have a: "0 < partition_count (config empty_engine)" "partitions empty_engine = []"
    by (simp_all add: empty_engine_def default_config_def)
  have n: "partition_count (config empty_engine) = 4"
    by (simp add: empty_engine_def default_config_def)
  have b: "unat (drop_bit 120 (md5 sample_lib ''/tmp/repo/app.py'')) mod 4 = 0"
    by (simp add: sample_lib_def sample_md5_byte)
  have c: "partition_name 0 = ''partition_0''"
    by (simp add: partition_name_def)
  from partition_for_path [OF a, of sample_lib "''/tmp/repo/app.py''" sample_world]
  show ?thesis
    using a unfolding n b sample_engine_def [symmetric] by (auto simp: c)
qed

section \<open>The classifier and the gate of the security analysis\<close>

text \<open>
  Claim C10, amended. For every path the classifier returns one of source, config,
  documentation and data, never binary or security-sensitive, and it returns source exactly
  when the lower-cased extension is in the fixed list of source extensions. The security
  analysis of the pipeline runs exactly when the configuration option \<^verbatim>\<open>security_analysis\<close>
  is set and the extension is in that list.
\<close>

theorem determine_file_type_range:
  "determine_file_type p \<in> {SOURCE_CODE, CONFIG, DOCUMENTATION, DATA} \<and>
   determine_file_type p \<noteq> BINARY \<and> determine_file_type p \<noteq> SECURITY_SENSITIVE \<and>
   (determine_file_type p = SOURCE_CODE) = (lower (path_suffix p) \<in> set source_extensions) \<and>
   runs_security_analysis cfg p =
     (security_analysis cfg \<and> lower (path_suffix p) \<in> set source_extensions)"
  by (simp add: determine_file_type_def runs_security_analysis_def Let_def)

text \<open>
  As stated, the claim fails: with the option \<^verbatim>\<open>security_analysis\<close> switched off, a path
  with the source extension \<^verbatim>\<open>.py\<close> is not analysed.
\<close>

theorem analysis_not_by_extension_alone:
  "lower (path_suffix ''/tmp/repo/app.py'') \<in> set source_extensions \<and>
   \<not> runs_security_analysis (default_config\<lparr>security_analysis := False\<rparr>) ''/tmp/repo/app.py''"
  by (simp add: sample_suffix source_extensions_def runs_security_analysis_def)

section \<open>The pipeline, step by step\<close>

lemma conn_index [simp]: "get_db_connection s None = (if db_lock s then Deadlock else Return IndexDb)"
  by (simp add: get_db_connection_def)

lemma conn_part:
  "map_of (partitions s) k = Some pt \<Longrightarrow> k \<noteq> [] \<Longrightarrow> \<not> db_lock s \<Longrightarrow>
   get_db_connection s (Some k) = Return (PartDb (db_file pt))"
  by (simp add: get_db_connection_def)

lemma path_build_entry [simp]: "path (build_entry L W s p f b pid) = p"
  by (simp add: build_entry_def Let_def)

lemma ingest_ok:
  assumes hl: "\<not> db_lock s"
    and hf: "files W p = Some f" "readable f"
      "length (content f) \<le> max_file_size_mb (config s) * 1024 * 1024"
    and hp: "get_partition_for_path L s p = Return pid" "map_of (partitions s) pid = Some pt"
      "pid \<noteq> []"
  shows "ingest L W s p =
     (Return (Some (build_entry L W s p f (content f) pid)),
      after_ingest W s (build_entry L W s p f (content f) pid) (db_file pt)
        (stored_bytes L s (content f)))"
proof -
  let ?e = "build_entry L W s p f (content f) pid"
  have rd: "read_file_efficiently W s p = Some (content f)"
    using hf by (simp add: read_file_efficiently_def Let_def)
  have st: "store_in_partition s ?e (stored_bytes L s (content f)) pid =
      (Return (), s\<lparr>partition_cache := (partition_cache s)
            (db_file pt := AList.update p
                      \<lparr>row_content = stored_bytes L s (content f), row_compressed = compressed ?e,
                       row_size = size' ?e, row_checksum = checksum ?e\<rparr>
                      (partition_cache s (db_file pt)))\<rparr>)"
    using hl hp by (simp add: store_in_partition_def conn_part)
  show ?thesis
    unfolding ingest_def rd
    using hl hf hp
    by (simp add: Let_def st bind_out_def update_index_def populate_tiers_def
        store_vulnerabilities_def after_ingest_def stats_incr_def)
qed

lemma ingest_inv:
  assumes "ingest L W s p = (Return (Some e), s')"
  shows "\<exists>f pid pt. files W p = Some f \<and> readable f \<and>
           length (content f) \<le> max_file_size_mb (config s) * 1024 * 1024 \<and>
           get_partition_for_path L s p = Return pid \<and>
           map_of (partitions s) pid = Some pt \<and> pid \<noteq> [] \<and> \<not> db_lock s \<and>
           e = build_entry L W s p f (content f) pid \<and>
           s' = after_ingest W s e (db_file pt) (stored_bytes L s (content f))"
proof -
  obtain bytes where rd: "read_file_efficiently W s p = Some bytes"
    using assms by (auto simp: ingest_def split: option.splits)
  then obtain f where f: "files W p = Some f" "readable f"
      "length (content f) \<le> max_file_size_mb (config s) * 1024 * 1024" "bytes = content f"
    by (auto simp: read_file_efficiently_def Let_def split: option.splits if_splits)
  obtain pid where pid: "get_partition_for_path L s p = Return pid"
    using assms rd by (auto simp: ingest_def split: outcome.splits)
  have "\<exists>dbf. get_db_connection s (Some pid) = Return (PartDb dbf)"
    using assms rd pid f
    by (auto simp: ingest_def store_in_partition_def bind_out_def Let_def
        split: outcome.splits db_target.splits)
  then obtain pt where pt: "map_of (partitions s) pid = Some pt" "pid \<noteq> []" "\<not> db_lock s"
    by (auto simp: get_db_connection_def Let_def split: option.splits if_splits outcome.splits)
  from ingest_ok [OF pt(3) f(1,2,3) pid pt(1,2)] assms
  have "e = build_entry L W s p f (content f) pid"
    and "s' = after_ingest W s (build_entry L W s p f (content f) pid) (db_file pt)
        (stored_bytes L s (content f))"
    by simp_all
  with f pid pt show ?thesis by blast
qed

lemma fresh_check_hit:
  assumes "security_cache s p = Some e" "files W p = Some f" "modified_time e \<ge> st_mtime f"
    "\<not> db_lock s"
  shows "fresh_check W s p False =
     (Return (Some e),
      stats_incr ''cache_hits''
        (s\<lparr>security_cache := (security_cache s)
             (p \<mapsto> e\<lparr>access_count := access_count e + 1, last_accessed := now W\<rparr>)\<rparr>))"
  using assms
  by (simp add: fresh_check_def get_cache_entry_def update_access_stats_def bind_out_def)

lemma fresh_check_miss:
  assumes "force \<or> \<not> fresh_entry W s p" "files W p \<noteq> None" "\<not> db_lock s"
  shows "fresh_check W s p force = (Return None, s)"
  using assms
  by (auto simp: fresh_check_def get_cache_entry_def fresh_entry_def split: option.splits)

lemma fresh_check_Some:
  assumes "fresh_check W s p force = (Return (Some e), s')"
  shows "\<not> force \<and> fresh_entry W s p \<and> security_cache s p = Some e \<and> \<not> db_lock s \<and>
     s' = stats_incr ''cache_hits''
        (s\<lparr>security_cache := (security_cache s)
             (p \<mapsto> e\<lparr>access_count := access_count e + 1, last_accessed := now W\<rparr>)\<rparr>)"
  using assms
  by (auto simp: fresh_check_def get_cache_entry_def fresh_entry_def update_access_stats_def
      bind_out_def split: option.splits if_splits outcome.splits)

lemma fresh_check_None:
  assumes "fresh_check W s p force = (Return None, s')"
  shows "s' = s \<and> (force \<or> \<not> fresh_entry W s p)"
  using assms
  by (auto simp: fresh_check_def get_cache_entry_def fresh_entry_def update_access_stats_def
      bind_out_def split: option.splits if_splits outcome.splits)

lemma cache_file_inv:
  assumes "cache_file_enhanced L W s fp force = (Return (Some e), s')"
  shows "\<exists>p. resolve W fp = Some p \<and> validate_path W s fp \<and>
     ((\<not> force \<and> fresh_entry W s p \<and> security_cache s p = Some e \<and> \<not> db_lock s \<and>
        s' = stats_incr ''cache_hits''
          (s\<lparr>security_cache := (security_cache s)
             (p \<mapsto> e\<lparr>access_count := access_count e + 1, last_accessed := now W\<rparr>)\<rparr>))
      \<or> ((force \<or> \<not> fresh_entry W s p) \<and> ingest L W s p = (Return (Some e), s')))"
proof -
  have v: "validate_path W s fp"
    using assms by (auto simp: cache_file_enhanced_def split: if_splits)
  then obtain p where p: "resolve W fp = Some p"
    by (auto simp: validate_path_def split: option.splits)
  have body: "cache_file_body L W s fp force = (Return (Some e), s')"
    using assms v
    by (auto simp: cache_file_enhanced_def split: prod.splits outcome.splits)
  obtain r s1 where fc: "fresh_check W s p force = (r, s1)" by (cases "fresh_check W s p force")
  show ?thesis
  proof (cases r)
    case (Return hit)
    show ?thesis
    proof (cases hit)
      case None
      with Return fc body p have "ingest L W s1 p = (Return (Some e), s')"
        by (simp add: cache_file_body_def bind_out_def)
      moreover from fresh_check_None [of W s p force s1] fc Return None
      have "s1 = s" "force \<or> \<not> fresh_entry W s p" by simp_all
      ultimately show ?thesis using p v by blast
    next
      case (Some e0)
      with Return fc body p have "e0 = e" "s1 = s'"
        by (simp_all add: cache_file_body_def bind_out_def)
      with fresh_check_Some [of W s p force e s'] fc Return Some
      show ?thesis using p v by blast
    qed
  next
    case (Raise x)
    with fc body p show ?thesis by (simp add: cache_file_body_def bind_out_def)
  next
    case Deadlock
    with fc body p show ?thesis by (simp add: cache_file_body_def bind_out_def)
  qed
qed

lemma cache_file_fresh:
  assumes "validate_path W s fp" "resolve W fp = Some p"
    "security_cache s p = Some e" "files W p = Some f" "modified_time e \<ge> st_mtime f"
    "\<not> db_lock s"
  shows "cache_file_enhanced L W s fp False =
     (Return (Some e),
      stats_incr ''cache_hits''
        (s\<lparr>security_cache := (security_cache s)
             (p \<mapsto> e\<lparr>access_count := access_count e + 1, last_accessed := now W\<rparr>)\<rparr>))"
  using assms fresh_check_hit [OF assms(3,4,5,6)]
  by (simp add: cache_file_enhanced_def cache_file_body_def bind_out_def)

lemma cache_file_ingest:
  assumes "validate_path W s fp" "resolve W fp = Some p"
    "force \<or> \<not> fresh_entry W s p" "files W p \<noteq> None" "\<not> db_lock s"
  shows "cache_file_enhanced L W s fp force =
     (case ingest L W s p of
        (Raise x, s1) \<Rightarrow> (Return None, stats_incr ''errors'' s1)
      | r \<Rightarrow> r)"
  using assms fresh_check_miss [OF assms(3,4,5)]
  by (simp add: cache_file_enhanced_def cache_file_body_def bind_out_def)

lemma db_lock_stats_incr [simp]: "db_lock (stats_incr k s) = db_lock s"
  and partitions_stats_incr [simp]: "partitions (stats_incr k s) = partitions s"
  and config_stats_incr [simp]: "config (stats_incr k s) = config s"
  and security_cache_stats_incr [simp]: "security_cache (stats_incr k s) = security_cache s"
  and partition_cache_stats_incr [simp]: "partition_cache (stats_incr k s) = partition_cache s"
  and vulnerabilities_stats_incr [simp]: "vulnerabilities_tbl (stats_incr k s) = vulnerabilities_tbl s"
  and memory_cache_stats_incr [simp]: "memory_cache (stats_incr k s) = memory_cache s"
  and ttl_cache_stats_incr [simp]: "ttl_cache (stats_incr k s) = ttl_cache s"
  and git_commits_stats_incr [simp]: "git_commits (stats_incr k s) = git_commits s"
  and performance_metrics_stats_incr [simp]: "performance_metrics (stats_incr k s) = performance_metrics s"
  and allowed_dirs_stats_incr [simp]: "allowed_dirs (stats_incr k s) = allowed_dirs s"
  and git_integration_stats_incr [simp]: "git_integration (stats_incr k s) = git_integration s"
  and cache_dir_stats_incr [simp]: "cache_dir (stats_incr k s) = cache_dir s"
  by (simp_all add: stats_incr_def)

lemma map_of_update_same: "map_of (AList.update k v al) k = Some v"
  by (simp add: update_conv')

lemma init_partitions_fields [simp]:
  "db_lock (init_partitions W s) = db_lock s"
  "config (init_partitions W s) = config s"
  "allowed_dirs (init_partitions W s) = allowed_dirs s"
  "security_cache (init_partitions W s) = security_cache s"
  "partition_cache (init_partitions W s) = partition_cache s"
  "memory_cache (init_partitions W s) = memory_cache s"
  "ttl_cache (init_partitions W s) = ttl_cache s"
  "stats (init_partitions W s) = stats s"
  "vulnerabilities_tbl (init_partitions W s) = vulnerabilities_tbl s"
  "git_commits (init_partitions W s) = git_commits s"
  "performance_metrics (init_partitions W s) = performance_metrics s"
  "git_integration (init_partitions W s) = git_integration s"
  "cache_dir (init_partitions W s) = cache_dir s"
  by (simp_all add: init_partitions_def)

lemma after_ingest_fields [simp]:
  "db_lock (after_ingest W s e dbf b) = db_lock s"
  "config (after_ingest W s e dbf b) = config s"
  "allowed_dirs (after_ingest W s e dbf b) = allowed_dirs s"
  "partitions (after_ingest W s e dbf b) = partitions s"
  "security_cache (after_ingest W s e dbf b) = (security_cache s)(path e \<mapsto> e)"
  "memory_cache (after_ingest W s e dbf b) = lru_setitem (memory_cache s) (path e) e"
  "ttl_cache (after_ingest W s e dbf b) = ttl_setitem (ttl_cache s) (monotonic W) (path e) e"
  "git_commits (after_ingest W s e dbf b) = git_commits s"
  "performance_metrics (after_ingest W s e dbf b) = performance_metrics s"
  "git_integration (after_ingest W s e dbf b) = git_integration s"
  by (simp_all add: after_ingest_def)

section \<open>The sample runs, evaluated\<close>

lemma sample_validate:
  "allowed_dirs s = [''/home/u'', ''/tmp''] \<Longrightarrow> resolve W = Some \<Longrightarrow>
   validate_path W s notes_path"
  by (simp add: validate_path_def notes_path_def path_parts_def)

lemma sample_notes_byte: "unat (drop_bit 120 (md5 sample_lib notes_path)) mod 4 = 3"
  by (simp add: sample_lib_def sample_md5_byte notes_path_def)

lemma partition_name_3: "partition_name 3 = ''partition_3''"
  by (simp add: partition_name_def)

lemma sample_engine_basics:
  "db_lock sample_engine = False" "allowed_dirs sample_engine = [''/home/u'', ''/tmp'']"
  "config sample_engine = default_config" "security_cache sample_engine = Map.empty"
  by (simp_all add: sample_engine_def empty_engine_def)

lemma sample_router:
  "get_partition_for_path sample_lib sample_engine notes_path = Return ''partition_3''"
  "map_of (partitions sample_engine) ''partition_3'' = Some (new_partition sample_world empty_engine 3)"
proof -
  have a: "0 < partition_count (config empty_engine)" "partitions empty_engine = []"
    and n: "partition_count (config empty_engine) = 4"
    by (simp_all add: empty_engine_def default_config_def)
  from router_init [OF a, where L = sample_lib and W = sample_world and fp = notes_path]
  show "get_partition_for_path sample_lib sample_engine notes_path = Return ''partition_3''"
    "map_of (partitions sample_engine) ''partition_3'' = Some (new_partition sample_world empty_engine 3)"
    unfolding n sample_notes_byte partition_name_3 sample_engine_def [symmetric] by simp_all
qed

lemma sample_notes_file: "files sample_world notes_path = Some notes_file"
  "resolve sample_world = Some" "files later_world notes_path = Some notes_file"
  "resolve later_world = Some" "now later_world = 3000" "now sample_world = 2000"
  by (simp_all add: sample_world_def later_world_def sample_files_def notes_path_def notes_file_def)

lemma first_call_eq:
  "first_call = (Return (Some notes_entry),
     after_ingest sample_world sample_engine notes_entry
       (db_file (new_partition sample_world empty_engine 3))
       (stored_bytes sample_lib sample_engine ''hello''))"
proof -
  have v: "validate_path sample_world sample_engine notes_path"
    by (rule sample_validate) (simp_all add: sample_engine_basics sample_notes_file)
  have nf: "\<not> fresh_entry sample_world sample_engine notes_path"
    by (simp add: fresh_entry_def sample_engine_basics)
  have c: "content notes_file = ''hello''" "readable notes_file" by (simp_all add: notes_file_def)
  have i: "ingest sample_lib sample_world sample_engine notes_path =
     (Return (Some notes_entry),
      after_ingest sample_world sample_engine notes_entry
       (db_file (new_partition sample_world empty_engine 3))
       (stored_bytes sample_lib sample_engine ''hello''))"
    using ingest_ok [of sample_engine sample_world notes_path notes_file sample_lib
        "''partition_3''" "new_partition sample_world empty_engine 3"]
    by (simp add: sample_engine_basics sample_notes_file sample_router c notes_entry_def
        default_config_def)
  show ?thesis
    unfolding first_call_def
    by (subst cache_file_ingest [OF v _ _ _ _, of notes_path])
      (simp_all add: sample_notes_file nf sample_engine_basics i)
qed

lemma cached_engine_eq:
  "cached_engine = after_ingest sample_world sample_engine notes_entry
       (db_file (new_partition sample_world empty_engine 3))
       (stored_bytes sample_lib sample_engine ''hello'')"
  by (simp add: cached_engine_def first_call_eq)

lemma notes_entry_fields:
  "path notes_entry = notes_path" "access_count notes_entry = 1"
  "modified_time notes_entry = 1000" "last_accessed notes_entry = 2000"
  "partition_key notes_entry = Some ''partition_3''" "compressed notes_entry = False"
  "vulnerabilities notes_entry = []"
  by (simp_all add: notes_entry_def build_entry_def Let_def notes_file_def sample_notes_file
      sample_engine_basics default_config_def runs_security_analysis_def determine_file_type_def
      notes_path_def lower_def path_suffix_def path_name_def path_parts_def suffix_of_name_def
      lower_char_def source_extensions_def)

lemma cached_engine_basics:
  "db_lock cached_engine = False" "allowed_dirs cached_engine = [''/home/u'', ''/tmp'']"
  "security_cache cached_engine notes_path = Some notes_entry"
  "partitions cached_engine = partitions sample_engine"
  "config cached_engine = default_config"
  by (simp_all add: cached_engine_eq sample_engine_basics notes_entry_fields)

lemma second_call_eq:
  "second_call = (Return (Some notes_entry),
      stats_incr ''cache_hits''
        (cached_engine\<lparr>security_cache := (security_cache cached_engine)
             (notes_path \<mapsto> notes_entry\<lparr>access_count := access_count notes_entry + 1,
                                          last_accessed := now later_world\<rparr>)\<rparr>))"
  unfolding second_call_def
  by (rule cache_file_fresh [where f = notes_file])
    (simp_all add: sample_validate cached_engine_basics sample_notes_file notes_entry_fields
      notes_file_def)

lemma sample_roundtrip: "gzip_decompress sample_lib (gzip_compress sample_lib b) = Some b"
  by (simp add: sample_lib_def sample_compress_def sample_decompress_def)

lemma zip_engine_basics:
  "db_lock zip_engine = False" "allowed_dirs zip_engine = [''/home/u'', ''/tmp'']"
  "config zip_engine = default_config\<lparr>compression_threshold_kb := 0\<rparr>"
  "security_cache zip_engine = Map.empty"
  by (simp_all add: zip_engine_def empty_engine_def)

lemma zip_router:
  "get_partition_for_path sample_lib zip_engine notes_path = Return ''partition_3''"
  "map_of (partitions zip_engine) ''partition_3'' =
     Some (new_partition sample_world
            (empty_engine\<lparr>config := default_config\<lparr>compression_threshold_kb := 0\<rparr>\<rparr>) 3)"
proof -
  let ?s = "empty_engine\<lparr>config := default_config\<lparr>compression_threshold_kb := 0\<rparr>\<rparr>"
  have a: "0 < partition_count (config ?s)" "partitions ?s = []"
    and n: "partition_count (config ?s) = 4"
    by (simp_all add: empty_engine_def default_config_def)
  from router_init [OF a, where L = sample_lib and W = sample_world and fp = notes_path]
  show "get_partition_for_path sample_lib zip_engine notes_path = Return ''partition_3''"
    "map_of (partitions zip_engine) ''partition_3'' = Some (new_partition sample_world ?s 3)"
    unfolding n sample_notes_byte partition_name_3 zip_engine_def [symmetric] by simp_all
qed

lemma capped_engine_basics:
  "db_lock capped_engine = False" "allowed_dirs capped_engine = [''/home/u'', ''/tmp'']"
  "security_cache capped_engine notes_path = Some notes_entry"
  "max_file_size_mb (config capped_engine) = 0"
  by (simp_all add: capped_engine_def cached_engine_basics)

section \<open>A fresh index entry is returned as it was read\<close>




section \<open>The checksum is the digest of the uncompressed bytes\<close>

text \<open>
  Whenever the pipeline caches a file (the call returns an entry that was not served from a
  fresh index row), the recorded checksum is the digest of the bytes of the file; the entry
  is flagged compressed exactly when the file is longer than the threshold; the row written
  to the partition of the entry carries the same flag; when it is flagged, decompressing the
  stored blob gives bytes whose digest is the checksum, otherwise the digest of the stored
  blob is the checksum; and \<open>read_cached_content\<close>, called with the lock free, returns bytes
  whose digest is the checksum. \<^verbatim>\<open>gzip.decompress\<close> is assumed to invert \<^verbatim>\<open>gzip.compress\<close>.
\<close>

lemma stored_blob_round_trip:
  assumes "cache_file_enhanced L W s fp force = (Return (Some e), s')"
    and "resolve W fp = Some p"
    and "force \<or> \<not> fresh_entry W s p"
    and "\<forall>b. gzip_decompress L (gzip_compress L b) = Some b"
  shows "\<exists>f pid pt row.
     files W p = Some f \<and> checksum e = sha256_hex L (content f) \<and>
     compressed e = (length (content f) > compression_threshold_kb (config s) * 1024) \<and>
     partition_key e = Some pid \<and> map_of (partitions s') pid = Some pt \<and>
     map_of (partition_cache s' (db_file pt)) p = Some row \<and>
     row_compressed row = compressed e \<and>
     (compressed e \<longrightarrow>
        (\<exists>b. gzip_decompress L (row_content row) = Some b \<and> sha256_hex L b = checksum e)) \<and>
     (\<not> compressed e \<longrightarrow> sha256_hex L (row_content row) = checksum e) \<and>
     (\<exists>b. read_cached_content L s' e = Return (Some b) \<and> sha256_hex L b = checksum e)"
proof -
  from cache_file_inv [OF assms(1)] assms(2,3)
  have ing: "ingest L W s p = (Return (Some e), s')" by auto
  from ingest_inv [OF ing] obtain f pid pt where
    f: "files W p = Some f" and
    pid: "map_of (partitions s) pid = Some pt" "pid \<noteq> []" "\<not> db_lock s" and
    e: "e = build_entry L W s p f (content f) pid" and
    s': "s' = after_ingest W s e (db_file pt) (stored_bytes L s (content f))"
    by blast
  let ?row = "\<lparr>row_content = stored_bytes L s (content f), row_compressed = compressed e,
               row_size = size' e, row_checksum = checksum e\<rparr>"
  have pe: "path e = p" "partition_key e = Some pid" "checksum e = sha256_hex L (content f)"
    "compressed e = (length (content f) > compression_threshold_kb (config s) * 1024)"
    by (simp_all add: e build_entry_def Let_def)
  have parts: "partitions s' = partitions s" "db_lock s' = db_lock s"
    by (simp_all add: s' after_ingest_def)
  have row: "map_of (partition_cache s' (db_file pt)) p = Some ?row"
    by (simp add: s' after_ingest_def pe map_of_update_same)
  have dec: "compressed e \<Longrightarrow> gzip_decompress L (row_content ?row) = Some (content f)"
    using assms(4) by (simp add: stored_bytes_def pe)
  have raw: "\<not> compressed e \<Longrightarrow> row_content ?row = content f"
    by (simp add: stored_bytes_def pe)
  have rd: "read_cached_content L s' e = Return (Some (content f))"
    using pid dec raw
    by (cases "compressed e")
      (simp_all add: read_cached_content_def pe conn_part parts row)
  show ?thesis
    using f pe pid parts row dec raw rd
    by (intro exI [of _ f] exI [of _ pid] exI [of _ pt] exI [of _ ?row]) auto
qed

section \<open>Rejected paths and files leave no trace\<close>

lemma validate_loop_outside:
  assumes "list_all
            (\<lambda>d. case resolve W d of
                   None \<Rightarrow> True
                 | Some a \<Rightarrow> \<not> prefix (path_parts a) (path_parts rp)) ds"
  shows "\<not> validate_loop W rp ds"
  using assms by (induction ds) (auto split: option.splits)

lemma not_contained_invalid: "not_contained W s fp \<Longrightarrow> \<not> validate_path W s fp"
  by (auto simp: not_contained_def validate_path_def validate_loop_outside split: option.splits)

text \<open>
  Claim C9, amended. For a path whose canonical form is under none of the allowed
  directories, \<open>cache_file_enhanced\<close> returns None and leaves the whole state as it was. The
  same holds for a readable file larger than the ceiling when \<open>force\<close> is set or the index
  has no fresh entry for the path. No exception reaches the caller in either case.
\<close>

theorem cache_file_rejects:
  "(not_contained W s fp \<longrightarrow> cache_file_enhanced L W s fp force = (Return None, s)) \<and>
   (validate_path W s fp \<and> resolve W fp = Some p \<and> files W p = Some f \<and> readable f \<and>
    length (content f) > max_file_size_mb (config s) * 1024 * 1024 \<and>
    (force \<or> \<not> fresh_entry W s p) \<and> \<not> db_lock s
    \<longrightarrow> cache_file_enhanced L W s fp force = (Return None, s))"
proof (intro conjI impI)
  assume "not_contained W s fp"
  then have "\<not> validate_path W s fp" by (rule not_contained_invalid)
  then show "cache_file_enhanced L W s fp force = (Return None, s)"
    by (simp add: cache_file_enhanced_def)
next
  assume a: "validate_path W s fp \<and> resolve W fp = Some p \<and> files W p = Some f \<and> readable f \<and>
    length (content f) > max_file_size_mb (config s) * 1024 * 1024 \<and>
    (force \<or> \<not> fresh_entry W s p) \<and> \<not> db_lock s"
  then have "ingest L W s p = (Return None, s)"
    by (simp add: ingest_def read_file_efficiently_def Let_def)
  moreover have "cache_file_enhanced L W s fp force =
     (case ingest L W s p of
        (Raise x, s1) \<Rightarrow> (Return None, stats_incr ''errors'' s1)
      | r \<Rightarrow> r)"
    using a by (intro cache_file_ingest) auto
  ultimately show "cache_file_enhanced L W s fp force = (Return None, s)" by simp
qed

text \<open>
  As stated, the claim fails: without \<open>force\<close>, a readable file above the ceiling that has a
  fresh index entry is served from the index, and the access count in the index goes up.
\<close>

theorem oversize_file_served_from_index:
  "validate_path later_world capped_engine notes_path \<and>
   files later_world notes_path = Some notes_file \<and> readable notes_file \<and>
   length (content notes_file) > max_file_size_mb (config capped_engine) * 1024 * 1024 \<and>
   fst (cache_file_enhanced sample_lib later_world capped_engine notes_path False)
     = Return (Some notes_entry) \<and>
   map_option access_count
     (security_cache (snd (cache_file_enhanced sample_lib later_world capped_engine notes_path False))
        notes_path) = Some 2 \<and>
   map_option access_count (security_cache capped_engine notes_path) = Some 1"
proof -
  have v: "validate_path later_world capped_engine notes_path"
    by (simp add: sample_validate capped_engine_basics sample_notes_file)
  have "cache_file_enhanced sample_lib later_world capped_engine notes_path False =
     (Return (Some notes_entry),
      stats_incr ''cache_hits''
        (capped_engine\<lparr>security_cache := (security_cache capped_engine)
             (notes_path \<mapsto> notes_entry\<lparr>access_count := access_count notes_entry + 1,
                                          last_accessed := now later_world\<rparr>)\<rparr>))"
    by (rule cache_file_fresh [where f = notes_file])
      (simp_all add: v capped_engine_basics sample_notes_file notes_entry_fields notes_file_def)
  then show ?thesis
    using v by (simp add: capped_engine_basics sample_notes_file notes_entry_fields notes_file_def)
qed

text \<open>A path outside the allowed directories, and a forced call on a file above the ceiling.\<close>

theorem cache_file_rejects_witness:
  "not_contained sample_world sample_engine ''/etc/passwd'' \<and>
   cache_file_enhanced sample_lib sample_world sample_engine ''/etc/passwd'' False
     = (Return None, sample_engine) \<and>
   validate_path later_world capped_engine notes_path \<and>
   resolve later_world notes_path = Some notes_path \<and>
   files later_world notes_path = Some notes_file \<and> readable notes_file \<and>
   length (content notes_file) > max_file_size_mb (config capped_engine) * 1024 * 1024 \<and>
   \<not> db_lock capped_engine \<and>
   cache_file_enhanced sample_lib later_world capped_engine notes_path True
     = (Return None, capped_engine)"
proof -
  have a: "not_contained sample_world sample_engine ''/etc/passwd''"
    by (simp add: not_contained_def sample_notes_file sample_engine_basics path_parts_def)
  have b: "validate_path later_world capped_engine notes_path \<and>
      resolve later_world notes_path = Some notes_path \<and>
      files later_world notes_path = Some notes_file \<and> readable notes_file \<and>
      length (content notes_file) > max_file_size_mb (config capped_engine) * 1024 * 1024 \<and>
      (True \<or> \<not> fresh_entry later_world capped_engine notes_path) \<and> \<not> db_lock capped_engine"
    by (simp add: sample_validate capped_engine_basics sample_notes_file notes_file_def)
  from cache_file_rejects [of sample_world sample_engine "''/etc/passwd''" sample_lib False,
      THEN conjunct1, THEN mp, OF a]
    cache_file_rejects [of later_world capped_engine notes_path sample_lib True notes_path notes_file,
      THEN conjunct2, THEN mp, OF b] a b
  show ?thesis by simp
qed

section \<open>The clear command\<close>

lemma wf_lookup:
  assumes "partitions_wf ps" and "pt \<in> snd ` set ps"
  shows "map_of ps (partition_id pt) = Some pt \<and> partition_id pt \<noteq> []"
proof -
  from assms(2) obtain k where k: "(k, pt) \<in> set ps" by force
  with assms(1) have "partition_id pt = k" "k \<noteq> []" "distinct (map fst ps)"
    by (auto simp: partitions_wf_def)
  with k show ?thesis by simp
qed

lemma clear_partitions_ok:
  assumes "\<not> db_lock s"
    and "\<forall>pt\<in>set pts. map_of (partitions s) (partition_id pt) = Some pt \<and> partition_id pt \<noteq> []"
  shows "clear_partitions s pts =
     (Return (),
      s\<lparr>partition_cache := (\<lambda>f. if f \<in> db_file ` set pts then [] else partition_cache s f)\<rparr>)"
  using assms
proof (induction pts arbitrary: s)
  case Nil
  then show ?case by simp
next
  case (Cons pt pts)
  let ?s1 = "s\<lparr>partition_cache := (partition_cache s)(db_file pt := [])\<rparr>"
  have c: "get_db_connection s (Some (partition_id pt)) = Return (PartDb (db_file pt))"
    using Cons.prems by (simp add: conn_part)
  have ih: "clear_partitions ?s1 pts =
     (Return (),
      ?s1\<lparr>partition_cache := (\<lambda>f. if f \<in> db_file ` set pts then [] else partition_cache ?s1 f)\<rparr>)"
    using Cons.prems by (intro Cons.IH) simp_all
  have "(\<lambda>f. if f \<in> db_file ` set pts then [] else partition_cache ?s1 f)
      = (\<lambda>f. if f \<in> db_file ` set (pt # pts) then [] else partition_cache s f)"
    by (rule ext) simp
  then show ?case
    by (simp add: c ih)
qed

text \<open>
  Claim C7. Without confirmation the clear command returns an error response and the state
  is the one it started from. With confirmation, on an engine whose partitions are as
  \<open>init_partitions\<close> leaves them, it returns success and leaves the table of every partition,
  the index entry table, the vulnerability table, the commit table and both tiers empty.
\<close>

theorem handle_clear_confirm:
  "handle_clear s False = (Return (RespError ''Clear requires confirmation''), s) \<and>
   (\<not> db_lock s \<and> partitions_wf (partitions s) \<longrightarrow>
     (\<exists>s'. handle_clear s True = (Return (RespSuccess ''Cache cleared''), s') \<and>
        (\<forall>pt\<in>snd ` set (partitions s). partition_cache s' (db_file pt) = []) \<and>
        security_cache s' = Map.empty \<and> vulnerabilities_tbl s' = [] \<and> git_commits s' = [] \<and>
        memory_cache s' = [] \<and> ttl_cache s' = []))"
proof (intro conjI impI)
  show "handle_clear s False = (Return (RespError ''Clear requires confirmation''), s)"
    by (simp add: handle_clear_def)
next
  assume a: "\<not> db_lock s \<and> partitions_wf (partitions s)"
  let ?pts = "map snd (partitions s)"
  let ?s1 = "s\<lparr>partition_cache := (\<lambda>f. if f \<in> db_file ` set ?pts then [] else partition_cache s f)\<rparr>"
  have "\<forall>pt\<in>set ?pts. map_of (partitions s) (partition_id pt) = Some pt \<and> partition_id pt \<noteq> []"
    using a wf_lookup [of "partitions s"] by simp
  then have c: "clear_partitions s ?pts = (Return (), ?s1)"
    using a by (intro clear_partitions_ok) simp_all
  have "handle_clear s True =
      (Return (RespSuccess ''Cache cleared''),
       ?s1\<lparr>security_cache := Map.empty, vulnerabilities_tbl := [],
           git_commits := [], memory_cache := [], ttl_cache := []\<rparr>)"
    using a by (simp add: handle_clear_def c)
  then show "\<exists>s'. handle_clear s True = (Return (RespSuccess ''Cache cleared''), s') \<and>
        (\<forall>pt\<in>snd ` set (partitions s). partition_cache s' (db_file pt) = []) \<and>
        security_cache s' = Map.empty \<and> vulnerabilities_tbl s' = [] \<and> git_commits s' = [] \<and>
        memory_cache s' = [] \<and> ttl_cache s' = []"
    by auto
qed

lemma init_partitions_wf:
  "partitions s = [] \<Longrightarrow> partitions_wf (partitions (init_partitions W s))"
  by (auto simp: init_partitions_eq partitions_wf_def distinct_map comp_def inj_on_def
      partition_name_inj partition_name_nonempty new_partition_def)

lemma sample_wf: "partitions_wf (partitions sample_engine)"
  unfolding sample_engine_def
  by (rule init_partitions_wf) (simp add: empty_engine_def)

lemma cached_blob:
  "map_of (partition_cache cached_engine (db_file (new_partition sample_world empty_engine 3)))
     notes_path \<noteq> None"
  by (simp add: cached_engine_eq after_ingest_def notes_entry_fields map_of_update_same)

lemma cached_tiers:
  "lru_contains (memory_cache cached_engine) notes_path"
  "map_of (memory_cache cached_engine) notes_path = Some notes_entry"
  by (simp_all add: cached_engine_eq notes_entry_fields lru_contains_def lru_setitem_def
      sample_engine_def empty_engine_def)

text \<open>The engine of the sample run, which holds one file, before and after the command.\<close>

theorem handle_clear_confirm_witness:
  "\<not> db_lock cached_engine \<and> partitions_wf (partitions cached_engine) \<and>
   security_cache cached_engine notes_path \<noteq> None \<and>
   partition_cache cached_engine (db_file (new_partition sample_world empty_engine 3)) \<noteq> [] \<and>
   memory_cache cached_engine \<noteq> [] \<and>
   handle_clear cached_engine False
     = (Return (RespError ''Clear requires confirmation''), cached_engine) \<and>
   fst (handle_clear cached_engine True) = Return (RespSuccess ''Cache cleared'') \<and>
   security_cache (snd (handle_clear cached_engine True)) = Map.empty \<and>
   partition_cache (snd (handle_clear cached_engine True))
     (db_file (new_partition sample_world empty_engine 3)) = [] \<and>
   memory_cache (snd (handle_clear cached_engine True)) = [] \<and>
   ttl_cache (snd (handle_clear cached_engine True)) = []"
proof -
  have h: "\<not> db_lock cached_engine \<and> partitions_wf (partitions cached_engine)"
    by (simp add: cached_engine_basics sample_wf)
  have pt: "new_partition sample_world empty_engine 3 \<in> snd ` set (partitions cached_engine)"
    using sample_router(2) by (auto simp: cached_engine_basics dest: map_of_SomeD intro: rev_image_eqI)
  have nb: "partition_cache cached_engine (db_file (new_partition sample_world empty_engine 3)) \<noteq> []"
    using cached_blob by auto
  have nm: "memory_cache cached_engine \<noteq> []"
    using cached_tiers(2) by auto
  from handle_clear_confirm [of cached_engine] h
  obtain s' where s': "handle_clear cached_engine True = (Return (RespSuccess ''Cache cleared''), s')"
    "\<forall>pt\<in>snd ` set (partitions cached_engine). partition_cache s' (db_file pt) = []"
    "security_cache s' = Map.empty" "memory_cache s' = []" "ttl_cache s' = []"
    and f: "handle_clear cached_engine False
     = (Return (RespError ''Clear requires confirmation''), cached_engine)"
    by blast
  from s'(2) pt have "partition_cache s' (db_file (new_partition sample_world empty_engine 3)) = []"
    by blast
  with s' f h nb nm show ?thesis
    by (simp add: cached_engine_basics)
qed

section \<open>Content retrieval on a tier hit\<close>

lemma hot_hit_deadlock:
  assumes "\<not> db_lock s" and "map_of (memory_cache s) fp = Some e"
    and "partition_key e = Some k" and "k \<noteq> []" and "map_of (partitions s) k = Some pt"
  shows "fst (get_cached_content L W s fp) = Deadlock"
  using assms
  by (simp add: get_cached_content_def Let_def lru_contains_def read_under_lock_def
      read_cached_content_def get_db_connection_def)

lemma warm_hit_deadlock:
  assumes "\<not> db_lock s" and "map_of (memory_cache s) fp = None"
    and "ttl_getitem (ttl_cache s) (monotonic W) fp = Some e"
    and "partition_key e = Some k" and "k \<noteq> []" and "map_of (partitions s) k = Some pt"
  shows "fst (get_cached_content L W s fp) = Deadlock"
  using assms
  by (simp add: get_cached_content_def Let_def lru_contains_def ttl_contains_def
      read_under_lock_def read_cached_content_def get_db_connection_def)

lemma tiers_miss:
  assumes "\<not> db_lock s" and "map_of (memory_cache s) fp = None"
    and "ttl_getitem (ttl_cache s) (monotonic W) fp = None"
  shows "get_cached_content L W s fp =
     (case security_cache s fp of
        None \<Rightarrow> (Return None, s)
      | Some e \<Rightarrow> (read_cached_content L s e, s))"
  using assms
  by (simp add: get_cached_content_def Let_def lru_contains_def ttl_contains_def
      get_cache_entry_def split: option.splits)

lemma read_cached_content_frame:
  assumes "partitions s' = partitions s" and "db_lock s' = db_lock s"
    and "partition_cache s' = partition_cache s"
  shows "read_cached_content L s' e = read_cached_content L s e"
  using assms
  by (simp add: read_cached_content_def get_db_connection_def
      cong: option.case_cong outcome.case_cong db_target.case_cong if_cong)

lemma cached_warm:
  "ttl_getitem (ttl_cache cached_engine) (monotonic later_world) notes_path = Some notes_entry"
  by (simp add: cached_engine_eq notes_entry_fields ttl_getitem_def ttl_setitem_def ttl_expire_def
      sample_engine_def empty_engine_def Let_def later_world_def sample_world_def ttl_seconds_def)

lemma cached_read:
  "read_cached_content sample_lib cached_engine notes_entry = Return (Some ''hello'')"
  using sample_router(2)
  by (simp add: read_cached_content_def notes_entry_fields conn_part cached_engine_basics)
    (simp add: cached_engine_eq after_ingest_def notes_entry_fields map_of_update_same
      stored_bytes_def sample_engine_basics default_config_def)

text \<open>
  Claim C5 against the code. In the engine of the sample run the file is in the hot and in
  the warm tier. \<open>get_cached_content\<close> finds it in the hot tier and calls
  \<open>read_cached_content\<close> while it holds the lock that \<open>get_db_connection\<close> takes: the call
  never returns. The same happens on a warm hit, once the hot tier is emptied. Only with both
  tiers empty does the call go to the index and return the bytes of the file.
\<close>

theorem tier_hit_never_returns:
  "\<not> db_lock cached_engine \<and> lru_contains (memory_cache cached_engine) notes_path \<and>
   fst (get_cached_content sample_lib later_world cached_engine notes_path) = Deadlock \<and>
   ttl_contains (ttl_cache cached_engine) (monotonic later_world) notes_path \<and>
   fst (get_cached_content sample_lib later_world (cached_engine\<lparr>memory_cache := []\<rparr>) notes_path)
     = Deadlock \<and>
   fst (get_cached_content sample_lib later_world
          (cached_engine\<lparr>memory_cache := [], ttl_cache := []\<rparr>) notes_path)
     = Return (Some ''hello'')"
proof -
  have p: "map_of (partitions cached_engine) ''partition_3''
      = Some (new_partition sample_world empty_engine 3)"
    by (simp add: cached_engine_basics sample_router)
  have a: "fst (get_cached_content sample_lib later_world cached_engine notes_path) = Deadlock"
    by (rule hot_hit_deadlock [OF _ cached_tiers(2) _ _ p])
      (simp_all add: cached_engine_basics notes_entry_fields)
  have b: "fst (get_cached_content sample_lib later_world (cached_engine\<lparr>memory_cache := []\<rparr>)
      notes_path) = Deadlock"
    by (rule warm_hit_deadlock [where e = notes_entry and k = "''partition_3''"
          and pt = "new_partition sample_world empty_engine 3"])
      (simp_all add: cached_engine_basics notes_entry_fields cached_warm sample_router)
  have r: "read_cached_content sample_lib (cached_engine\<lparr>memory_cache := [], ttl_cache := []\<rparr>)
      notes_entry = read_cached_content sample_lib cached_engine notes_entry"
    by (rule read_cached_content_frame) simp_all
  have c: "fst (get_cached_content sample_lib later_world
          (cached_engine\<lparr>memory_cache := [], ttl_cache := []\<rparr>) notes_path)
     = Return (Some ''hello'')"
    by (subst tiers_miss)
      (simp_all add: cached_engine_basics ttl_getitem_def r cached_read)
  show ?thesis
    using a b c cached_tiers(1) cached_warm
    by (simp add: cached_engine_basics ttl_contains_def)
qed

section \<open>Retrieval of a file that has just been cached\<close>

text \<open>
  The pipeline leaves the entry in the hot tier, so the retrieval of the content of a file
  that has just been cached starts with a hot hit and never returns, whatever the time of
  the retrieval.
\<close>

lemma map_of_drop_None: "map_of c k = None \<Longrightarrow> map_of (drop n c) k = None"
proof -
  assume "map_of c k = None"
  hence "k \<notin> fst ` set c" by (simp add: map_of_eq_None_iff)
  moreover have "set (drop n c) \<subseteq> set c" by (rule set_drop_subset)
  ultimately have "k \<notin> fst ` set (drop n c)" by blast
  thus ?thesis by (simp add: map_of_eq_None_iff)
qed

lemma map_of_lru_setitem: "map_of (lru_setitem c k v) k = Some v"
proof (cases "lru_contains c k")
  case True
  have "map_of (AList.delete k c) k = None" by (simp add: delete_conv)
  thus ?thesis using True by (simp add: lru_setitem_def map_add_def)
next
  case False
  hence "map_of c k = None" by (simp add: lru_contains_def)
  hence "map_of (drop (Suc (length c) - lru_maxsize) c) k = None" by (rule map_of_drop_None)
  thus ?thesis using False by (simp add: lru_setitem_def map_add_def)
qed

lemma retrieval_after_caching_deadlocks:
  assumes "cache_file_enhanced L W s fp force = (Return (Some e), s')"
    and "resolve W fp = Some p"
    and "force \<or> \<not> fresh_entry W s p"
  shows "fst (get_cached_content L W2 s' p) = Deadlock"
proof -
  from cache_file_inv [OF assms(1)] assms(2,3)
  have ing: "ingest L W s p = (Return (Some e), s')" by auto
  from ingest_inv [OF ing] obtain f pid pt where
    pid: "map_of (partitions s) pid = Some pt" "pid \<noteq> []" "\<not> db_lock s" and
    e: "e = build_entry L W s p f (content f) pid" and
    s': "s' = after_ingest W s e (db_file pt) (stored_bytes L s (content f))"
    by blast
  have pe: "path e = p" "partition_key e = Some pid"
    by (simp_all add: e build_entry_def Let_def)
  have hot: "map_of (memory_cache s') p = Some e"
    by (simp add: s' pe map_of_lru_setitem)
  show ?thesis
    by (rule hot_hit_deadlock [OF _ hot pe(2) pid(2)]) (simp_all add: s' pid)
qed

lemma zip_call_eq:
  "zip_call = (Return (Some zip_entry),
     after_ingest sample_world zip_engine zip_entry
       (db_file (new_partition sample_world
          (empty_engine\<lparr>config := default_config\<lparr>compression_threshold_kb := 0\<rparr>\<rparr>) 3))
       (stored_bytes sample_lib zip_engine ''hello''))"
proof -
  let ?pt = "new_partition sample_world
       (empty_engine\<lparr>config := default_config\<lparr>compression_threshold_kb := 0\<rparr>\<rparr>) 3"
  have v: "validate_path sample_world zip_engine notes_path"
    by (rule sample_validate) (simp_all add: zip_engine_basics sample_notes_file)
  have c: "content notes_file = ''hello''" "readable notes_file" by (simp_all add: notes_file_def)
  have i: "ingest sample_lib sample_world zip_engine notes_path =
      (Return (Some zip_entry),
       after_ingest sample_world zip_engine zip_entry (db_file ?pt)
         (stored_bytes sample_lib zip_engine ''hello''))"
    using ingest_ok [of zip_engine sample_world notes_path notes_file sample_lib
        "''partition_3''" ?pt]
    by (simp add: zip_engine_basics sample_notes_file zip_router c default_config_def
        zip_entry_def)
  have r: "resolve sample_world notes_path = Some notes_path"
    by (simp add: sample_notes_file)
  show ?thesis
    unfolding zip_call_def
    by (subst cache_file_ingest [OF v r])
      (simp_all add: sample_notes_file zip_engine_basics i)
qed

text \<open>
  Claim C3 against the code. On \<open>zip_engine\<close> the plain text file is cached compressed; on
  the sample engine it is cached raw. In both runs the recorded checksum is the digest of
  the bytes of the file, and \<open>read_cached_content\<close>, called on the new state with the lock
  free, decompresses when the flag is set and returns these bytes. But
  \<open>get_cached_content\<close>, the retrieval that callers use, never returns on either state.
\<close>

theorem retrieval_after_caching_never_returns:
  "fst zip_call = Return (Some zip_entry) \<and> compressed zip_entry \<and>
   checksum zip_entry = sha256_hex sample_lib ''hello'' \<and>
   read_cached_content sample_lib (snd zip_call) zip_entry = Return (Some ''hello'') \<and>
   fst (get_cached_content sample_lib later_world (snd zip_call) notes_path) = Deadlock \<and>
   fst first_call = Return (Some notes_entry) \<and> \<not> compressed notes_entry \<and>
   checksum notes_entry = sha256_hex sample_lib ''hello'' \<and>
   read_cached_content sample_lib (snd first_call) notes_entry = Return (Some ''hello'') \<and>
   fst (get_cached_content sample_lib later_world (snd first_call) notes_path) = Deadlock"
proof -
  have r: "resolve sample_world notes_path = Some notes_path"
    by (simp add: sample_notes_file)
  have rt: "\<forall>b. gzip_decompress sample_lib (gzip_compress sample_lib b) = Some b"
    by (simp add: sample_roundtrip)
  have zc: "cache_file_enhanced sample_lib sample_world zip_engine notes_path True
      = (Return (Some zip_entry), snd zip_call)"
    by (simp add: zip_call_def [symmetric] zip_call_eq)
  have fc: "cache_file_enhanced sample_lib sample_world sample_engine notes_path False
      = (Return (Some notes_entry), snd first_call)"
    by (simp add: first_call_def [symmetric] first_call_eq)
  have nf: "False \<or> \<not> fresh_entry sample_world sample_engine notes_path"
    by (simp add: fresh_entry_def sample_engine_basics)
  have z1: "compressed zip_entry" "checksum zip_entry = sha256_hex sample_lib ''hello''"
    by (simp_all add: zip_entry_def build_entry_def Let_def zip_engine_basics)
  have n1: "\<not> compressed notes_entry" "checksum notes_entry = sha256_hex sample_lib ''hello''"
    by (simp_all add: notes_entry_def build_entry_def Let_def sample_engine_basics
        default_config_def)
  from stored_blob_round_trip [OF zc r _ rt] z1
  have z2: "\<exists>b. read_cached_content sample_lib (snd zip_call) zip_entry = Return (Some b)"
    by blast
  have z3: "read_cached_content sample_lib (snd zip_call) zip_entry = Return (Some ''hello'')"
    using zip_router(2)
    by (simp add: zip_call_eq read_cached_content_def conn_part zip_engine_basics
        zip_entry_def build_entry_def Let_def after_ingest_def map_of_update_same
        stored_bytes_def)
      (simp add: sample_lib_def sample_compress_def sample_decompress_def)
  have n3: "read_cached_content sample_lib (snd first_call) notes_entry = Return (Some ''hello'')"
    using cached_read by (simp add: cached_engine_def)
  have z4: "fst (get_cached_content sample_lib later_world (snd zip_call) notes_path) = Deadlock"
    by (rule retrieval_after_caching_deadlocks [OF zc r]) simp
  have n4: "fst (get_cached_content sample_lib later_world (snd first_call) notes_path) = Deadlock"
    by (rule retrieval_after_caching_deadlocks [OF fc r nf])
  show ?thesis
    using z1 n1 z3 n3 z4 n4 by (simp add: zip_call_eq first_call_eq)
qed

section \<open>The hit rate of the metrics\<close>

lemma partition_counts_ok:
  assumes "\<not> db_lock s" and "partitions_wf (partitions s)"
    and "set ks \<subseteq> fst ` set (partitions s)"
  shows "\<exists>r. partition_counts s ks = Return r \<and> map fst r = ks"
  using assms(3)
proof (induction ks)
  case Nil
  then show ?case by simp
next
  case (Cons k ks)
  then obtain pt where pt: "(k, pt) \<in> set (partitions s)" by auto
  with assms(2) have "map_of (partitions s) k = Some pt" "k \<noteq> []"
    by (auto simp: partitions_wf_def)
  then have c: "get_db_connection s (Some k) = Return (PartDb (db_file pt))"
    using assms(1) by (simp add: conn_part)
  from Cons obtain r where "partition_counts s ks = Return r" "map fst r = ks" by auto
  then show ?case by (simp add: c)
qed

lemma metrics_ok:
  assumes "\<not> db_lock s" and "partitions_wf (partitions s)"
    and "now W \<notin> m_timestamp ` set (performance_metrics s)"
    and "stats_get s ''cache_hits'' 0 + stats_get s ''cache_misses'' 1 \<noteq> 0"
  shows "\<exists>m s'. get_performance_metrics W s = (Return m, s') \<and>
     cache_hits m = stats_get s ''cache_hits'' 0 \<and>
     cache_misses m = stats_get s ''cache_misses'' 0 \<and>
     hit_rate_percent m = 100 * real_of_int (stats_get s ''cache_hits'' 0)
        / real_of_int (stats_get s ''cache_hits'' 0 + stats_get s ''cache_misses'' 1) \<and>
     cached_files m = stats_get s ''cached_files'' 0 \<and>
     memory_cache_size m = length (memory_cache s) \<and>
     ttl_cache_size m = ttl_len (ttl_cache s) (monotonic W) \<and>
     map fst (partition_balance m) = map fst (partitions s) \<and>
     (\<exists>row. performance_metrics s' = performance_metrics s @ [row] \<and> m_timestamp row = now W)"
proof -
  define s1 where "s1 = (if map_of (stats s) ''cache_hits'' = None
                then s\<lparr>stats := AList.update ''cache_hits'' 0 (stats s)\<rparr> else s)"
  have g: "stats_get s1 k d = stats_get s k (if k = ''cache_hits'' then 0 else d)"
    if "k = ''cache_hits'' \<longrightarrow> d = 0" for k d
    using that by (auto simp: s1_def stats_get_def update_conv' split: option.splits)
  have f: "db_lock s1 = db_lock s" "partitions s1 = partitions s"
    "performance_metrics s1 = performance_metrics s" "memory_cache s1 = memory_cache s"
    "ttl_cache s1 = ttl_cache s"
    by (simp_all add: s1_def)
  from partition_counts_ok [of s1 "map fst (partitions s1)"] assms f
  obtain r where r: "partition_counts s1 (map fst (partitions s1)) = Return r"
    "map fst r = map fst (partitions s)" by auto
  have h: "stats_get s1 ''cache_hits'' 0 = stats_get s ''cache_hits'' 0"
    "stats_get s1 ''cache_misses'' 1 = stats_get s ''cache_misses'' 1"
    "stats_get s1 ''cache_misses'' 0 = stats_get s ''cache_misses'' 0"
    "stats_get s1 ''cached_files'' 0 = stats_get s ''cached_files'' 0"
    using g [of "''cache_hits''" 0] g [of "''cache_misses''" 1] g [of "''cache_misses''" 0]
      g [of "''cached_files''" 0] by simp_all
  show ?thesis
    unfolding get_performance_metrics_def s1_def [symmetric] Let_def
    using assms r by (simp add: h f)
qed

lemma second_state_basics:
  "db_lock (snd second_call) = False" "partitions (snd second_call) = partitions sample_engine"
  "performance_metrics (snd second_call) = []"
  "stats (snd second_call) = [(''cached_files'', 1), (''cache_hits'', 1)]"
  by (simp_all add: second_call_eq cached_engine_eq stats_incr_def after_ingest_def
      sample_engine_def empty_engine_def)

text \<open>
  Claim C8 against the code. After the two calls of the sample run the counters show one
  hit and no miss. The metrics report these counters and a hit rate of 50 percent, where
  the claim gives 100 percent; one row is added to the metrics log.
\<close>

theorem hit_rate_with_no_recorded_miss:
  "map_option cache_hits (returned sample_metrics) = Some 1 \<and>
   map_option cache_misses (returned sample_metrics) = Some 0 \<and>
   map_option hit_rate_percent (returned sample_metrics) = Some 50 \<and>
   length (performance_metrics (snd sample_metrics))
     = Suc (length (performance_metrics (snd second_call)))"
proof -
  have g: "stats_get (snd second_call) ''cache_hits'' 0 = 1"
    "stats_get (snd second_call) ''cache_misses'' 1 = 1"
    "stats_get (snd second_call) ''cache_misses'' 0 = 0"
    by (simp_all add: stats_get_def second_state_basics)
  from metrics_ok [of "snd second_call" later_world]
  obtain m s' where m: "sample_metrics = (Return m, s')"
    "cache_hits m = 1" "cache_misses m = 0" "hit_rate_percent m = 100 * 1 / 2"
    "\<exists>row. performance_metrics s' = performance_metrics (snd second_call) @ [row]"
    unfolding sample_metrics_def g
    by (auto simp: second_state_basics sample_wf)
  from m(5) obtain row where
    "performance_metrics s' = performance_metrics (snd second_call) @ [row]" ..
  then show ?thesis
    by (simp add: returned_def m(1,2,3,4))
qed

section \<open>Version-control sync\<close>

lemma remove_ok:
  assumes "security_cache s fp = Some e" and "partition_key e = Some k" and "k \<noteq> []"
    and "map_of (partitions s) k = Some pt" and "\<not> db_lock s"
  shows "remove_from_cache W s fp =
     (Return (),
      s\<lparr>partition_cache := (partition_cache s)
           (db_file pt := AList.delete fp (partition_cache s (db_file pt))),
        security_cache := (security_cache s)(fp := None),
        vulnerabilities_tbl := filter (\<lambda>r. v_file_path r \<noteq> fp) (vulnerabilities_tbl s),
        memory_cache := lru_pop (memory_cache s) fp,
        ttl_cache := ttl_pop (ttl_cache s) (monotonic W) fp\<rparr>)"
  using assms by (simp add: remove_from_cache_def get_cache_entry_def conn_part)

lemma remove_none:
  assumes "security_cache s fp = None" and "\<not> db_lock s"
  shows "remove_from_cache W s fp = (Return (), s)"
  using assms by (simp add: remove_from_cache_def get_cache_entry_def)

lemma map_of_delete_same: "map_of (AList.delete k al) k = None"
  by (simp add: delete_conv')

lemma map_of_delete_other: "map_of (AList.delete k al) q = (if q = k then None else map_of al q)"
  by (simp add: delete_conv')

lemma lru_pop_gone: "\<not> lru_contains (lru_pop c k) k"
  by (simp add: lru_contains_def lru_pop_def map_of_delete_same)

lemma ttl_pop_gone: "\<not> ttl_contains (ttl_pop c t k) t k"
  by (simp add: ttl_contains_def ttl_pop_def ttl_getitem_def map_of_delete_same)

lemma remove_frame:
  assumes "remove_from_cache W s q = (r, s1)"
  shows "(security_cache s fp = None \<longrightarrow> security_cache s1 fp = None) \<and>
         (map_of (partition_cache s dbf) fp = None \<longrightarrow> map_of (partition_cache s1 dbf) fp = None)"
  using assms
  by (auto simp: remove_from_cache_def get_cache_entry_def map_of_delete_other
      split: outcome.splits option.splits db_target.splits if_splits)

lemma after_ingest_frame:
  assumes "path e \<noteq> fp"
  shows "security_cache (after_ingest W s e dbf b) fp = security_cache s fp"
    and "map_of (partition_cache (after_ingest W s e dbf b) dbf') fp
       = map_of (partition_cache s dbf') fp"
  using assms by (simp_all add: after_ingest_def update_conv')

lemma ingest_states:
  assumes "ingest L W s p = (r, s1)"
  shows "s1 = s \<or> (\<exists>e dbf b. path e = p \<and> s1 = after_ingest W s e dbf b)"
proof (cases r)
  case (Return x)
  show ?thesis
  proof (cases x)
    case None
    with Return assms have "s1 = s"
      by (auto simp: ingest_def bind_out_def store_in_partition_def update_index_def
          populate_tiers_def store_vulnerabilities_def Let_def get_db_connection_def
          split: option.splits outcome.splits db_target.splits if_splits)
    then show ?thesis ..
  next
    case (Some e)
    with Return assms have "ingest L W s p = (Return (Some e), s1)" by simp
    from ingest_inv [OF this]
    have "\<exists>e dbf b. path e = p \<and> s1 = after_ingest W s e dbf b"
    proof (elim exE conjE)
      fix f pid pt
      assume "e = build_entry L W s p f (content f) pid"
        and "s1 = after_ingest W s e (db_file pt) (stored_bytes L s (content f))"
      then have "path e = p \<and>
          s1 = after_ingest W s e (db_file pt) (stored_bytes L s (content f))"
        by simp
      then show ?thesis by (intro exI)
    qed
    then show ?thesis ..
  qed
next
  case (Raise x)
  with assms have "s1 = s"
    by (auto simp: ingest_def bind_out_def store_in_partition_def update_index_def
        populate_tiers_def store_vulnerabilities_def Let_def get_db_connection_def
        split: option.splits outcome.splits db_target.splits if_splits)
  then show ?thesis ..
next
  case Deadlock
  with assms have "s1 = s"
    by (auto simp: ingest_def bind_out_def store_in_partition_def update_index_def
        populate_tiers_def store_vulnerabilities_def Let_def get_db_connection_def
        split: option.splits outcome.splits db_target.splits if_splits)
  then show ?thesis ..
qed

lemma cache_file_frame:
  assumes "cache_file_enhanced L W s q True = (r, s1)" and "resolve W q \<noteq> Some fp"
  shows "security_cache s1 fp = security_cache s fp \<and>
         map_of (partition_cache s1 dbf) fp = map_of (partition_cache s dbf) fp"
proof (cases "validate_path W s q")
  case False
  with assms show ?thesis by (simp add: cache_file_enhanced_def)
next
  case True
  then obtain p where p: "resolve W q = Some p"
    by (auto simp: validate_path_def split: option.splits)
  with assms(2) have ne: "p \<noteq> fp" by simp
  obtain r2 s2 where i: "ingest L W s p = (r2, s2)" by (cases "ingest L W s p")
  have body: "cache_file_body L W s q True = (r2, s2)"
    by (simp add: cache_file_body_def p fresh_check_def bind_out_def i)
  have "s1 = s2 \<or> s1 = stats_incr ''errors'' s2"
    using assms(1) True body
    by (auto simp: cache_file_enhanced_def split: outcome.splits)
  moreover from ingest_states [OF i] ne
  have "security_cache s2 fp = security_cache s fp \<and>
         map_of (partition_cache s2 dbf) fp = map_of (partition_cache s dbf) fp"
    by (auto simp: after_ingest_frame)
  ultimately show ?thesis by auto
qed

lemma sync_change_frame:
  assumes "sync_change L W s c = (r, s1)"
    and "change_type c \<noteq> ''deleted'' \<longrightarrow> resolve W (file_path c) \<noteq> Some fp"
  shows "(security_cache s fp = None \<longrightarrow> security_cache s1 fp = None) \<and>
         (map_of (partition_cache s dbf) fp = None \<longrightarrow> map_of (partition_cache s1 dbf) fp = None)"
proof (cases "change_type c = ''deleted''")
  case True
  with assms(1) have "remove_from_cache W s (file_path c) = (r, s1)"
    by (simp add: sync_change_def)
  from remove_frame [OF this] show ?thesis .
next
  case False
  obtain r2 s2 where c: "cache_file_enhanced L W s (file_path c) True = (r2, s2)"
    by (cases "cache_file_enhanced L W s (file_path c) True")
  with assms(1) False have "s1 = s2"
    by (auto simp: sync_change_def bind_out_def split: outcome.splits)
  with cache_file_frame [OF c, of fp dbf] assms(2) False show ?thesis by simp
qed

lemma sync_changes_frame:
  assumes "sync_changes L W s cs = (r, s1)"
    and "\<forall>c\<in>set cs. change_type c \<noteq> ''deleted'' \<longrightarrow> resolve W (file_path c) \<noteq> Some fp"
  shows "(security_cache s fp = None \<longrightarrow> security_cache s1 fp = None) \<and>
         (map_of (partition_cache s dbf) fp = None \<longrightarrow> map_of (partition_cache s1 dbf) fp = None)"
  using assms
proof (induction cs arbitrary: s)
  case Nil
  then show ?case by simp
next
  case (Cons c cs)
  obtain r2 s2 where c: "sync_change L W s c = (r2, s2)" by (cases "sync_change L W s c")
  have step: "(security_cache s fp = None \<longrightarrow> security_cache s2 fp = None) \<and>
         (map_of (partition_cache s dbf) fp = None \<longrightarrow> map_of (partition_cache s2 dbf) fp = None)"
    using sync_change_frame [OF c] Cons.prems(2) by simp
  show ?case
  proof (cases r2)
    case (Return u)
    with c Cons.prems(1) have "sync_changes L W s2 cs = (r, s1)"
      by (simp add: bind_out_def)
    from Cons.IH [OF this] Cons.prems(2) step show ?thesis by simp
  next
    case (Raise x)
    with c Cons.prems(1) have "s1 = s2" by (simp add: bind_out_def)
    with step show ?thesis by simp
  next
    case Deadlock
    with c Cons.prems(1) have "s1 = s2" by (simp add: bind_out_def)
    with step show ?thesis by simp
  qed
qed

lemma remove_returns:
  assumes "remove_from_cache W s fp = (Return u, s2)"
  shows "security_cache s2 fp = None \<and>
     (\<forall>e k pt. security_cache s fp = Some e \<and> partition_key e = Some k \<and>
        map_of (partitions s) k = Some pt \<longrightarrow>
        map_of (partition_cache s2 (db_file pt)) fp = None)"
  using assms
  by (auto simp: remove_from_cache_def get_cache_entry_def get_db_connection_def
      map_of_delete_same
      split: outcome.splits option.splits db_target.splits if_splits)

lemma remove_other:
  assumes "remove_from_cache W s q = (r, s1)" and "q \<noteq> fp"
  shows "security_cache s1 fp = security_cache s fp \<and> partitions s1 = partitions s"
  using assms
  by (auto simp: remove_from_cache_def get_cache_entry_def
      split: outcome.splits option.splits db_target.splits if_splits)

lemma remove_partitions:
  assumes "remove_from_cache W s q = (r, s1)"
  shows "partitions s1 = partitions s"
  using assms
  by (auto simp: remove_from_cache_def get_cache_entry_def
      split: outcome.splits option.splits db_target.splits if_splits)

lemma cache_file_partitions:
  assumes "cache_file_enhanced L W s q True = (r, s1)"
  shows "partitions s1 = partitions s"
proof (cases "validate_path W s q")
  case False
  with assms show ?thesis by (simp add: cache_file_enhanced_def)
next
  case True
  then obtain p where p: "resolve W q = Some p"
    by (auto simp: validate_path_def split: option.splits)
  obtain r2 s2 where i: "ingest L W s p = (r2, s2)" by (cases "ingest L W s p")
  have body: "cache_file_body L W s q True = (r2, s2)"
    by (simp add: cache_file_body_def p fresh_check_def bind_out_def i)
  have "s1 = s2 \<or> s1 = stats_incr ''errors'' s2"
    using assms(1) True body
    by (auto simp: cache_file_enhanced_def split: outcome.splits)
  moreover from ingest_states [OF i] have "partitions s2 = partitions s" by auto
  ultimately show ?thesis by auto
qed

lemma sync_change_other:
  assumes "sync_change L W s c = (r, s1)" and "\<not> concerns W fp c"
  shows "security_cache s1 fp = security_cache s fp \<and> partitions s1 = partitions s"
proof (cases "change_type c = ''deleted''")
  case True
  with assms have "remove_from_cache W s (file_path c) = (r, s1)" "file_path c \<noteq> fp"
    by (simp_all add: sync_change_def concerns_def)
  from remove_other [OF this] show ?thesis .
next
  case False
  obtain r2 s2 where c: "cache_file_enhanced L W s (file_path c) True = (r2, s2)"
    by (cases "cache_file_enhanced L W s (file_path c) True")
  with assms(1) False have "s1 = s2"
    by (auto simp: sync_change_def bind_out_def split: outcome.splits)
  with cache_file_frame [OF c, of fp] cache_file_partitions [OF c] assms(2) False
  show ?thesis by (simp add: concerns_def)
qed

lemma sync_changes_other:
  assumes "sync_changes L W s cs = (r, s1)" and "\<forall>c\<in>set cs. \<not> concerns W fp c"
  shows "security_cache s1 fp = security_cache s fp \<and> partitions s1 = partitions s"
  using assms
proof (induction cs arbitrary: s)
  case Nil
  then show ?case by simp
next
  case (Cons c cs)
  obtain r2 s2 where c: "sync_change L W s c = (r2, s2)" by (cases "sync_change L W s c")
  have step: "security_cache s2 fp = security_cache s fp \<and> partitions s2 = partitions s"
    using sync_change_other [OF c, of fp] Cons.prems(2) by simp
  show ?case
  proof (cases r2)
    case (Return u)
    with c Cons.prems(1) have "sync_changes L W s2 cs = (r, s1)"
      by (simp add: bind_out_def)
    from Cons.IH [OF this] Cons.prems(2) step show ?thesis by simp
  next
    case (Raise x)
    with c Cons.prems(1) have "s1 = s2" by (simp add: bind_out_def)
    with step show ?thesis by simp
  next
    case Deadlock
    with c Cons.prems(1) have "s1 = s2" by (simp add: bind_out_def)
    with step show ?thesis by simp
  qed
qed

lemma sync_changes_append:
  "sync_changes L W s (xs @ ys) =
     bind_out (sync_changes L W s xs) (\<lambda>u s1. sync_changes L W s1 ys)"
proof (induction xs arbitrary: s)
  case Nil
  then show ?case by (simp add: bind_out_def)
next
  case (Cons x xs)
  show ?case
    by (cases "sync_change L W s x" rule: prod.exhaust [case_names Pair],
        cases "fst (sync_change L W s x)")
      (simp_all add: bind_out_def Cons)
qed

lemma sync_deleted:
  assumes run: "sync_changes L W s (cs1 @ c # cs2) = (Return u, s')"
    and del: "change_type c = ''deleted''"
    and others: "\<forall>c'\<in>set (cs1 @ cs2). \<not> concerns W (file_path c) c'"
  shows "security_cache s' (file_path c) = None \<and>
     (\<forall>e k pt. security_cache s (file_path c) = Some e \<and> partition_key e = Some k \<and>
        map_of (partitions s) k = Some pt \<longrightarrow>
        map_of (partition_cache s' (db_file pt)) (file_path c) = None)"
proof -
  let ?fp = "file_path c"
  obtain r1 s1 where p1: "sync_changes L W s cs1 = (r1, s1)" by (cases "sync_changes L W s cs1")
  with run have r1: "r1 = Return ()" and rest: "sync_changes L W s1 (c # cs2) = (Return u, s')"
    by (auto simp: sync_changes_append bind_out_def split: outcome.splits)
  from sync_changes_other [OF p1, of ?fp] others
  have same: "security_cache s1 ?fp = security_cache s ?fp" "partitions s1 = partitions s" by auto
  obtain r2 s2 where p2: "remove_from_cache W s1 ?fp = (r2, s2)"
    by (cases "remove_from_cache W s1 ?fp")
  with rest del have r2: "r2 = Return ()" and p3: "sync_changes L W s2 cs2 = (Return u, s')"
    by (auto simp: sync_change_def bind_out_def split: outcome.splits)
  from p2 r2 have p2': "remove_from_cache W s1 ?fp = (Return (), s2)" by simp
  note rr = remove_returns [OF p2', unfolded same]
  have gone: "security_cache s2 ?fp = None"
    "\<forall>e k pt. security_cache s ?fp = Some e \<and> partition_key e = Some k \<and>
        map_of (partitions s) k = Some pt \<longrightarrow>
        map_of (partition_cache s2 (db_file pt)) ?fp = None"
    using rr by blast+
  have nc: "\<forall>c'\<in>set cs2. change_type c' \<noteq> ''deleted'' \<longrightarrow> resolve W (file_path c') \<noteq> Some ?fp"
  proof (intro ballI impI)
    fix c' assume c': "c' \<in> set cs2" "change_type c' \<noteq> ''deleted''"
    with others have "\<not> concerns W ?fp c'" by simp
    with c' show "resolve W (file_path c') \<noteq> Some ?fp" by (simp add: concerns_def)
  qed
  from sync_changes_frame [OF p3 nc] gone show ?thesis by blast
qed

text \<open>
  What the sync does with a path in canonical form. A change of kind deleted whose path
  has an index entry deletes the blob from the partition that the entry names, the index
  row and the vulnerability rows of the path, and removes the path from both tiers; every
  other kind of change runs the pipeline with \<open>force\<close> set. Hence after a sync that
  returns, whose change list deletes a path in canonical form that no other change of the
  list touches, the path has no index entry, and no blob in the partition of the entry it
  had before the sync.
\<close>

lemma sync_removes_indexed_paths:
  "(change_type c = ''deleted'' \<and> resolve W (file_path c) = Some (file_path c) \<and>
    security_cache s (file_path c) = Some e \<and>
    partition_key e = Some k \<and> k \<noteq> [] \<and> map_of (partitions s) k = Some pt \<and> \<not> db_lock s \<longrightarrow>
      (\<exists>s1. sync_change L W s c = (Return (), s1) \<and>
         security_cache s1 (file_path c) = None \<and>
         map_of (partition_cache s1 (db_file pt)) (file_path c) = None \<and>
         (\<forall>r\<in>set (vulnerabilities_tbl s1). v_file_path r \<noteq> file_path c) \<and>
         \<not> lru_contains (memory_cache s1) (file_path c) \<and>
         \<not> ttl_contains (ttl_cache s1) (monotonic W) (file_path c))) \<and>
   (change_type c \<noteq> ''deleted'' \<longrightarrow>
      snd (sync_change L W s c) = snd (cache_file_enhanced L W s (file_path c) True)) \<and>
   (git_integration s = Some g \<and>
    get_changed_files W g base_ref target_ref = cs1 @ c # cs2 \<and>
    change_type c = ''deleted'' \<and> resolve W (file_path c) = Some (file_path c) \<and>
    (\<forall>c'\<in>set (cs1 @ cs2). \<not> concerns W (file_path c) c') \<and>
    update_from_git L W s base_ref target_ref = (Return (), s') \<longrightarrow>
      security_cache s' (file_path c) = None \<and>
      (security_cache s (file_path c) = Some e \<and> partition_key e = Some k \<and>
       map_of (partitions s) k = Some pt \<longrightarrow>
         map_of (partition_cache s' (db_file pt)) (file_path c) = None))"
proof (intro conjI impI)
  assume a: "change_type c = ''deleted'' \<and> resolve W (file_path c) = Some (file_path c) \<and>
    security_cache s (file_path c) = Some e \<and>
    partition_key e = Some k \<and> k \<noteq> [] \<and> map_of (partitions s) k = Some pt \<and> \<not> db_lock s"
  then have "sync_change L W s c =
     (Return (),
      s\<lparr>partition_cache := (partition_cache s)
           (db_file pt := AList.delete (file_path c) (partition_cache s (db_file pt))),
        security_cache := (security_cache s)(file_path c := None),
        vulnerabilities_tbl := filter (\<lambda>r. v_file_path r \<noteq> file_path c) (vulnerabilities_tbl s),
        memory_cache := lru_pop (memory_cache s) (file_path c),
        ttl_cache := ttl_pop (ttl_cache s) (monotonic W) (file_path c)\<rparr>)"
    by (simp add: sync_change_def remove_ok)
  then show "\<exists>s1. sync_change L W s c = (Return (), s1) \<and>
         security_cache s1 (file_path c) = None \<and>
         map_of (partition_cache s1 (db_file pt)) (file_path c) = None \<and>
         (\<forall>r\<in>set (vulnerabilities_tbl s1). v_file_path r \<noteq> file_path c) \<and>
         \<not> lru_contains (memory_cache s1) (file_path c) \<and>
         \<not> ttl_contains (ttl_cache s1) (monotonic W) (file_path c)"
    by (simp add: map_of_delete_same lru_pop_gone ttl_pop_gone)
next
  assume "change_type c \<noteq> ''deleted''"
  then show "snd (sync_change L W s c) = snd (cache_file_enhanced L W s (file_path c) True)"
    by (cases "cache_file_enhanced L W s (file_path c) True" rule: prod.exhaust [case_names Pair],
        cases "fst (cache_file_enhanced L W s (file_path c) True)")
      (simp_all add: sync_change_def bind_out_def)
next
  assume a: "git_integration s = Some g \<and>
    get_changed_files W g base_ref target_ref = cs1 @ c # cs2 \<and>
    change_type c = ''deleted'' \<and> resolve W (file_path c) = Some (file_path c) \<and>
    (\<forall>c'\<in>set (cs1 @ cs2). \<not> concerns W (file_path c) c') \<and>
    update_from_git L W s base_ref target_ref = (Return (), s')"
  then have run: "sync_changes L W s (cs1 @ c # cs2) = (Return (), s')"
    by (auto simp: update_from_git_def)
  from sync_deleted [OF run] a
  have r: "security_cache s' (file_path c) = None \<and>
     (\<forall>e k pt. security_cache s (file_path c) = Some e \<and> partition_key e = Some k \<and>
        map_of (partitions s) k = Some pt \<longrightarrow>
        map_of (partition_cache s' (db_file pt)) (file_path c) = None)"
    by blast
  then show "security_cache s' (file_path c) = None" by simp
  assume "security_cache s (file_path c) = Some e \<and> partition_key e = Some k \<and>
       map_of (partitions s) k = Some pt"
  with r show "map_of (partition_cache s' (db_file pt)) (file_path c) = None" by blast
qed

lemma sample_changes:
  "get_changed_files later_world sample_repo a b = [deleted_notes, renamed_old]"
  by (simp add: get_changed_files_def sample_repo_def later_world_def sample_world_def
      parse_diff_line_def parse_change_type_def startswith_def path_join_def path_str_def
      path_root_def path_parts_def nl_def deleted_notes_def renamed_old_def)

lemma repo_engine_basics:
  "db_lock repo_engine = False" "allowed_dirs repo_engine = [''/home/u'', ''/tmp'']"
  "security_cache repo_engine notes_path = Some notes_entry"
  "partitions repo_engine = partitions sample_engine"
  "git_integration repo_engine = Some sample_repo"
  "partition_cache repo_engine = partition_cache cached_engine"
  "memory_cache repo_engine = memory_cache cached_engine"
  by (simp_all add: repo_engine_def cached_engine_basics)

lemma orphan_engine_basics:
  "db_lock orphan_engine = False" "allowed_dirs orphan_engine = [''/home/u'', ''/tmp'']"
  "security_cache orphan_engine = Map.empty"
  "partitions orphan_engine = partitions sample_engine"
  "git_integration orphan_engine = Some sample_repo"
  "partition_cache orphan_engine = partition_cache cached_engine"
  "memory_cache orphan_engine = memory_cache cached_engine"
  by (simp_all add: orphan_engine_def repo_engine_basics)

lemma missing_file_not_cached:
  assumes "allowed_dirs s = [''/home/u'', ''/tmp'']"
  shows "cache_file_enhanced L later_world s ''/tmp/repo/old.txt'' True = (Return None, s)"
proof -
  have v: "validate_path later_world s ''/tmp/repo/old.txt''"
    using assms by (simp add: validate_path_def sample_notes_file path_parts_def)
  have f: "files later_world ''/tmp/repo/old.txt'' = None"
    by (simp add: later_world_def sample_world_def sample_files_def)
  show ?thesis
    using v f
    by (simp add: cache_file_enhanced_def cache_file_body_def sample_notes_file fresh_check_def
        bind_out_def ingest_def read_file_efficiently_def)
qed

lemma deleted_notes_fields:
  "file_path deleted_notes = notes_path" "change_type deleted_notes = ''deleted''"
  "file_path renamed_old = ''/tmp/repo/old.txt''" "change_type renamed_old = ''renamed''"
  by (simp_all add: deleted_notes_def renamed_old_def notes_path_def)

lemma renamed_not_notes: "\<not> concerns later_world notes_path renamed_old"
  by (simp add: concerns_def deleted_notes_fields sample_notes_file notes_path_def)

lemma sync_step_allowed:
  assumes "sync_change L W s c = (r, s1)"
  shows "allowed_dirs s1 = allowed_dirs s"
proof (cases "change_type c = ''deleted''")
  case True
  with assms show ?thesis
    by (auto simp: sync_change_def remove_from_cache_def get_cache_entry_def
        split: outcome.splits option.splits db_target.splits if_splits)
next
  case False
  obtain r2 s2 where c: "cache_file_enhanced L W s (file_path c) True = (r2, s2)"
    by (cases "cache_file_enhanced L W s (file_path c) True")
  with assms False have e: "s1 = s2"
    by (auto simp: sync_change_def bind_out_def split: outcome.splits)
  show ?thesis
  proof (cases "validate_path W s (file_path c)")
    case False
    with c e show ?thesis by (simp add: cache_file_enhanced_def)
  next
    case True
    then obtain p where p: "resolve W (file_path c) = Some p"
      by (auto simp: validate_path_def split: option.splits)
    obtain r3 s3 where i: "ingest L W s p = (r3, s3)" by (cases "ingest L W s p")
    have body: "cache_file_body L W s (file_path c) True = (r3, s3)"
      by (simp add: cache_file_body_def p fresh_check_def bind_out_def i)
    have "s2 = s3 \<or> s2 = stats_incr ''errors'' s3"
      using c True body by (auto simp: cache_file_enhanced_def split: outcome.splits)
    moreover from ingest_states [OF i] have "allowed_dirs s3 = allowed_dirs s" by auto
    ultimately show ?thesis using e by auto
  qed
qed

lemma repo_sync_returns:
  "\<exists>s'. update_from_git sample_lib later_world repo_engine ''HEAD~1'' ''HEAD'' = (Return (), s')"
proof -
  obtain s1 where s1: "sync_change sample_lib later_world repo_engine deleted_notes = (Return (), s1)"
    using remove_ok [of repo_engine notes_path notes_entry "''partition_3''"
        "new_partition sample_world empty_engine 3" later_world]
    by (simp add: sync_change_def deleted_notes_fields repo_engine_basics notes_entry_fields
        sample_router)
  from sync_step_allowed [OF s1] have "allowed_dirs s1 = [''/home/u'', ''/tmp'']"
    by (simp add: repo_engine_basics)
  then have "sync_change sample_lib later_world s1 renamed_old = (Return (), s1)"
    by (simp add: sync_change_def deleted_notes_fields missing_file_not_cached bind_out_def)
  with s1 show ?thesis
    by (simp add: update_from_git_def repo_engine_basics sample_changes bind_out_def)
qed

text \<open>
  The sync of the sample repository: \<^verbatim>\<open>notes.txt\<close> is indexed under its canonical path and
  is removed; the renamed path goes through the pipeline.
\<close>

lemma sync_removes_sample:
  "git_integration repo_engine = Some sample_repo \<and>
   get_changed_files later_world sample_repo ''HEAD~1'' ''HEAD'' = [] @ deleted_notes # [renamed_old] \<and>
   change_type deleted_notes = ''deleted'' \<and> change_type renamed_old \<noteq> ''deleted'' \<and>
   resolve later_world (file_path deleted_notes) = Some (file_path deleted_notes) \<and>
   \<not> concerns later_world (file_path deleted_notes) renamed_old \<and>
   security_cache repo_engine (file_path deleted_notes) = Some notes_entry \<and>
   partition_key notes_entry = Some ''partition_3'' \<and>
   map_of (partitions repo_engine) ''partition_3''
     = Some (new_partition sample_world empty_engine 3) \<and>
   \<not> db_lock repo_engine \<and>
   fst (update_from_git sample_lib later_world repo_engine ''HEAD~1'' ''HEAD'') = Return () \<and>
   security_cache (snd (update_from_git sample_lib later_world repo_engine ''HEAD~1'' ''HEAD''))
     notes_path = None \<and>
   map_of (partition_cache (snd (update_from_git sample_lib later_world repo_engine ''HEAD~1'' ''HEAD''))
             (db_file (new_partition sample_world empty_engine 3))) notes_path = None \<and>
   fst (sync_change sample_lib later_world repo_engine deleted_notes) = Return () \<and>
   \<not> lru_contains (memory_cache (snd (sync_change sample_lib later_world repo_engine deleted_notes)))
       notes_path \<and>
   snd (sync_change sample_lib later_world repo_engine renamed_old)
     = snd (cache_file_enhanced sample_lib later_world repo_engine (file_path renamed_old) True)"
proof -
  note T = sync_removes_indexed_paths
  have h1: "change_type deleted_notes = ''deleted'' \<and>
      resolve later_world (file_path deleted_notes) = Some (file_path deleted_notes) \<and>
      security_cache repo_engine (file_path deleted_notes) = Some notes_entry \<and>
      partition_key notes_entry = Some ''partition_3'' \<and> ''partition_3'' \<noteq> [] \<and>
      map_of (partitions repo_engine) ''partition_3''
        = Some (new_partition sample_world empty_engine 3) \<and> \<not> db_lock repo_engine"
    by (simp add: deleted_notes_fields repo_engine_basics notes_entry_fields sample_router
        sample_notes_file)
  from T [where c = deleted_notes and s = repo_engine and e = notes_entry
      and k = "''partition_3''" and pt = "new_partition sample_world empty_engine 3"
      and L = sample_lib and W = later_world,
      THEN conjunct1, THEN mp, OF h1]
  obtain s1 where s1: "sync_change sample_lib later_world repo_engine deleted_notes = (Return (), s1)"
    "\<not> lru_contains (memory_cache s1) (file_path deleted_notes)" by blast
  have h3: "change_type renamed_old \<noteq> ''deleted''" by (simp add: deleted_notes_fields)
  note p3 = T [where c = renamed_old and s = repo_engine and L = sample_lib
      and W = later_world,
      THEN conjunct2, THEN conjunct1, THEN mp, OF h3]
  from repo_sync_returns obtain s' where
    s': "update_from_git sample_lib later_world repo_engine ''HEAD~1'' ''HEAD'' = (Return (), s')" ..
  have h4: "git_integration repo_engine = Some sample_repo \<and>
      get_changed_files later_world sample_repo ''HEAD~1'' ''HEAD'' = [] @ deleted_notes # [renamed_old] \<and>
      change_type deleted_notes = ''deleted'' \<and>
      resolve later_world (file_path deleted_notes) = Some (file_path deleted_notes) \<and>
      (\<forall>c'\<in>set ([] @ [renamed_old]). \<not> concerns later_world (file_path deleted_notes) c') \<and>
      update_from_git sample_lib later_world repo_engine ''HEAD~1'' ''HEAD'' = (Return (), s')"
    using renamed_not_notes
    by (simp add: repo_engine_basics sample_changes deleted_notes_fields s' sample_notes_file)
  note p4 = T [where c = deleted_notes and s = repo_engine and e = notes_entry
      and k = "''partition_3''" and pt = "new_partition sample_world empty_engine 3"
      and L = sample_lib and W = later_world and g = sample_repo
      and base_ref = "''HEAD~1''" and target_ref = "''HEAD''" and ?cs1.0 = "[]"
      and ?cs2.0 = "[renamed_old]" and s' = s',
      THEN conjunct2, THEN conjunct2, THEN mp, OF h4]
  from p4 h1 have g4: "security_cache s' notes_path = None"
    "map_of (partition_cache s' (db_file (new_partition sample_world empty_engine 3))) notes_path = None"
    by (simp_all add: deleted_notes_fields)
  show ?thesis
    using h1 h3 s1 p3 g4 renamed_not_notes
    by (simp add: s' sample_changes deleted_notes_fields repo_engine_basics)
qed

text \<open>
  The removal returns at once when the index has no row for the path: a blob in a partition
  and an entry in the hot tier that have no index row stay where they are.
\<close>

lemma sync_leaves_orphan_blob:
  "resolve later_world notes_path = Some notes_path \<and>
   security_cache orphan_engine notes_path = None \<and>
   map_of (partition_cache orphan_engine (db_file (new_partition sample_world empty_engine 3)))
     notes_path \<noteq> None \<and>
   lru_contains (memory_cache orphan_engine) notes_path \<and>
   update_from_git sample_lib later_world orphan_engine ''HEAD~1'' ''HEAD''
     = (Return (), orphan_engine)"
proof -
  have a: "sync_change sample_lib later_world orphan_engine deleted_notes = (Return (), orphan_engine)"
    by (simp add: sync_change_def deleted_notes_fields remove_none orphan_engine_basics)
  have b: "sync_change sample_lib later_world orphan_engine renamed_old = (Return (), orphan_engine)"
    by (simp add: sync_change_def deleted_notes_fields missing_file_not_cached bind_out_def
        orphan_engine_basics)
  show ?thesis
    using cached_blob cached_tiers(1)
    by (simp add: update_from_git_def orphan_engine_basics sample_changes a b bind_out_def
        sample_notes_file)
qed

section \<open>Version-control sync of a repository bound by a relative name\<close>

lemma cwd_resolve_simps:
  "cwd_resolve ''repo/notes.txt'' = Some notes_path"
  "cwd_resolve ''repo/old.txt'' = Some ''/tmp/repo/old.txt''"
  "cwd_resolve notes_path = Some notes_path"
  "cwd_resolve ''/home/u'' = Some ''/home/u''" "cwd_resolve ''/tmp'' = Some ''/tmp''"
  by (simp_all add: cwd_resolve_def path_root_def path_join_def path_str_def path_parts_def
      notes_path_def)

lemma cwd_world_fields:
  "resolve cwd_world = cwd_resolve" "resolve cwd_later_world = cwd_resolve"
  "files cwd_world = files sample_world" "files cwd_later_world = files sample_world"
  "now cwd_world = 2000" "monotonic cwd_world = monotonic sample_world"
  "hash_object cwd_world = hash_object sample_world"
  "git_diff cwd_later_world = git_diff sample_world"
  by (simp_all add: cwd_world_def cwd_later_world_def later_world_def sample_world_def)

lemma cwd_validate:
  assumes "allowed_dirs s = [''/home/u'', ''/tmp'']" "resolve W = cwd_resolve"
  shows "validate_path W s ''repo/notes.txt''" "validate_path W s ''repo/old.txt''"
  using assms
  by (simp_all add: validate_path_def cwd_resolve_simps notes_path_def path_parts_def)

lemma rel_call_eq: "rel_call = first_call"
proof -
  have v: "validate_path cwd_world sample_engine ''repo/notes.txt''"
    by (rule cwd_validate) (simp_all add: sample_engine_basics cwd_world_fields)
  have r: "resolve cwd_world ''repo/notes.txt'' = Some notes_path"
    by (simp add: cwd_world_fields cwd_resolve_simps)
  have nf: "\<not> fresh_entry cwd_world sample_engine notes_path"
    by (simp add: fresh_entry_def sample_engine_basics)
  have c: "content notes_file = ''hello''" "readable notes_file" by (simp_all add: notes_file_def)
  have b: "build_entry sample_lib cwd_world sample_engine notes_path notes_file ''hello''
      ''partition_3'' = notes_entry"
    by (simp add: notes_entry_def build_entry_def cwd_world_fields sample_notes_file
        cong: option.case_cong if_cong)
  have i: "ingest sample_lib cwd_world sample_engine notes_path =
     (Return (Some notes_entry),
      after_ingest sample_world sample_engine notes_entry
       (db_file (new_partition sample_world empty_engine 3))
       (stored_bytes sample_lib sample_engine ''hello''))"
    using ingest_ok [of sample_engine cwd_world notes_path notes_file sample_lib
        "''partition_3''" "new_partition sample_world empty_engine 3"]
    by (simp add: sample_engine_basics sample_notes_file sample_router c b default_config_def
        cwd_world_fields after_ingest_def notes_entry_fields)
  show ?thesis
    unfolding rel_call_def
    by (subst cache_file_ingest [OF v r])
      (simp_all add: sample_notes_file nf sample_engine_basics i cwd_world_fields first_call_eq)
qed

lemma rel_engine_basics:
  "db_lock rel_engine = False" "allowed_dirs rel_engine = [''/home/u'', ''/tmp'']"
  "security_cache rel_engine notes_path = Some notes_entry"
  "security_cache rel_engine ''repo/notes.txt'' = None"
  "git_integration rel_engine = Some rel_repo"
  "partition_cache rel_engine = partition_cache cached_engine"
  "memory_cache rel_engine = memory_cache cached_engine"
  by (simp_all add: rel_engine_def rel_call_eq cached_engine_def [symmetric] cached_engine_basics)
    (simp add: cached_engine_eq after_ingest_def notes_entry_fields sample_engine_basics
      notes_path_def)

lemma rel_changes:
  "map (\<lambda>c. (file_path c, change_type c)) (get_changed_files cwd_later_world rel_repo a b)
     = [(''repo/notes.txt'', ''deleted''), (''repo/old.txt'', ''renamed'')]"
  by (simp add: get_changed_files_def rel_repo_def cwd_world_fields sample_world_def
      parse_diff_line_def parse_change_type_def startswith_def path_join_def path_str_def
      path_root_def path_parts_def nl_def)

lemma rel_missing_file_not_cached:
  "cache_file_enhanced L cwd_later_world rel_engine ''repo/old.txt'' True = (Return None, rel_engine)"
proof -
  have v: "validate_path cwd_later_world rel_engine ''repo/old.txt''"
    by (rule cwd_validate) (simp_all add: rel_engine_basics cwd_world_fields)
  have f: "files cwd_later_world ''/tmp/repo/old.txt'' = None"
    by (simp add: cwd_world_fields sample_world_def sample_files_def)
  show ?thesis
    using v f
    by (simp add: cache_file_enhanced_def cache_file_body_def cwd_world_fields cwd_resolve_simps
        fresh_check_def bind_out_def ingest_def read_file_efficiently_def)
qed

lemma rel_sync:
  "update_from_git sample_lib cwd_later_world rel_engine ''HEAD~1'' ''HEAD''
     = (Return (), rel_engine)"
proof -
  obtain c1 c2 where cs: "get_changed_files cwd_later_world rel_repo ''HEAD~1'' ''HEAD'' = [c1, c2]"
    and c1: "file_path c1 = ''repo/notes.txt''" "change_type c1 = ''deleted''"
    and c2: "file_path c2 = ''repo/old.txt''" "change_type c2 = ''renamed''"
    using rel_changes [of "''HEAD~1''" "''HEAD''"] by (auto simp: map_eq_Cons_conv)
  have a: "sync_change sample_lib cwd_later_world rel_engine c1 = (Return (), rel_engine)"
    by (simp add: sync_change_def c1 remove_none rel_engine_basics)
  have b: "sync_change sample_lib cwd_later_world rel_engine c2 = (Return (), rel_engine)"
    by (simp add: sync_change_def c2 rel_missing_file_not_cached bind_out_def)
  show ?thesis
    by (simp add: update_from_git_def rel_engine_basics cs a b bind_out_def)
qed

text \<open>
  Claim C6 against the code. The working directory is \<^verbatim>\<open>/tmp\<close>. The file is cached through
  the name \<^verbatim>\<open>repo/notes.txt\<close>: the pipeline puts it in the index, in its partition and in
  the hot tier under the canonical path \<^verbatim>\<open>/tmp/repo/notes.txt\<close>. The repository is bound
  as \<^verbatim>\<open>repo\<close> and the sync reports \<^verbatim>\<open>repo/notes.txt\<close> as deleted. The sync returns and the
  state is the one before it: the file keeps its index row, its blob and its entry in the
  hot tier, because the removal looks the reported name up as it is where the pipeline
  takes the canonical form. When the same repository is bound as \<^verbatim>\<open>/tmp/repo\<close>, the sync
  removes the index row and the blob.
\<close>

theorem sync_keeps_deleted_file:
  "resolve cwd_world ''repo/notes.txt'' = Some notes_path \<and>
   resolve cwd_later_world ''repo/notes.txt'' = Some notes_path \<and>
   fst rel_call = Return (Some notes_entry) \<and> path notes_entry = notes_path \<and>
   git_integration rel_engine = Some rel_repo \<and>
   map (\<lambda>c. (file_path c, change_type c))
       (get_changed_files cwd_later_world rel_repo ''HEAD~1'' ''HEAD'')
     = [(''repo/notes.txt'', ''deleted''), (''repo/old.txt'', ''renamed'')] \<and>
   update_from_git sample_lib cwd_later_world rel_engine ''HEAD~1'' ''HEAD''
     = (Return (), rel_engine) \<and>
   security_cache rel_engine notes_path = Some notes_entry \<and>
   map_of (partition_cache rel_engine (db_file (new_partition sample_world empty_engine 3)))
     notes_path \<noteq> None \<and>
   lru_contains (memory_cache rel_engine) notes_path \<and>
   rel_engine = repo_engine\<lparr>git_integration := Some rel_repo\<rparr> \<and>
   fst (update_from_git sample_lib later_world repo_engine ''HEAD~1'' ''HEAD'') = Return () \<and>
   security_cache (snd (update_from_git sample_lib later_world repo_engine ''HEAD~1'' ''HEAD''))
     notes_path = None \<and>
   map_of (partition_cache (snd (update_from_git sample_lib later_world repo_engine ''HEAD~1'' ''HEAD''))
             (db_file (new_partition sample_world empty_engine 3))) notes_path = None"
proof -
  have e: "rel_engine = repo_engine\<lparr>git_integration := Some rel_repo\<rparr>"
    by (simp add: rel_engine_def repo_engine_def rel_call_eq cached_engine_def)
  show ?thesis
    using cached_blob cached_tiers(1) sync_removes_sample e
    by (simp add: cwd_world_fields cwd_resolve_simps rel_call_eq first_call_eq
        notes_entry_fields rel_engine_basics rel_changes rel_sync)
qed

end
